theory Spec2Isabelle
  imports Main "HOL-Library.AList" "HOL-Library.Multiset"
begin

section \<open>JavaScript values used by the client\<close>

text \<open>
  The client of \<^verbatim>\<open>src/gsheetsCrud.ts\<close> is a class \<^verbatim>\<open>GSheets\<close> with four data
  operations and one string helper. Strings are modelled as lists of characters; the
  case mappings below are those of ECMAScript on the ASCII repertoire (the 26 Latin
  letters are mapped, every other ASCII character is left as it is), and white space is
  the ASCII white space that \<^verbatim>\<open>String.prototype.trim\<close> strips. The model is one of
  ASCII text: on a character outside ASCII the functions below leave it as it is, where
  ECMAScript applies the Unicode case mapping, so nothing is claimed here about such
  text. Row positions are integers.
\<close>

definition toUpperCase_char :: "char \<Rightarrow> char" where
  "toUpperCase_char c =
     (let n = (of_char c :: nat) in if 97 \<le> n \<and> n \<le> 122 then char_of (n - 32) else c)"

definition toLowerCase_char :: "char \<Rightarrow> char" where
  "toLowerCase_char c =
     (let n = (of_char c :: nat) in if 65 \<le> n \<and> n \<le> 90 then char_of (n + 32) else c)"

definition toUpperCase :: "string \<Rightarrow> string" where
  "toUpperCase s = map toUpperCase_char s"

definition toLowerCase :: "string \<Rightarrow> string" where
  "toLowerCase s = map toLowerCase_char s"

definition isWhiteSpace :: "char \<Rightarrow> bool" where
  "isWhiteSpace c = (let n = (of_char c :: nat) in (9 \<le> n \<and> n \<le> 13) \<or> n = 32)"

definition trim :: "string \<Rightarrow> string" where
  "trim s = rev (dropWhile isWhiteSpace (rev (dropWhile isWhiteSpace s)))"

text \<open>\<^verbatim>\<open>s.split(sep)\<close> for a one-character separator: never empty, \<^verbatim>\<open>"".split(",")\<close> is \<^verbatim>\<open>[""]\<close>.\<close>

fun split_on :: "char \<Rightarrow> string \<Rightarrow> string list" where
  "split_on sep [] = [[]]"
| "split_on sep (c # cs) =
     (if c = sep then [] # split_on sep cs
      else (case split_on sep cs of [] \<Rightarrow> [[c]] | p # ps \<Rightarrow> (c # p) # ps))"

text \<open>
  Reading an array at a position: \<^verbatim>\<open>xs[i]\<close> is \<^verbatim>\<open>undefined\<close> (here \<open>None\<close>) outside
  \<open>0 \<le> i < length\<close>. Writing \<^verbatim>\<open>xs[i] = v\<close> beyond the end extends the array, the
  positions in between being holes (here \<open>None\<close> in a list of optional cells).
\<close>

definition js_nth :: "'a list \<Rightarrow> int \<Rightarrow> 'a option" where
  "js_nth xs i = (if 0 \<le> i \<and> i < int (length xs) then Some (xs ! nat i) else None)"

definition js_set :: "'a option list \<Rightarrow> nat \<Rightarrow> 'a \<Rightarrow> 'a option list" where
  "js_set xs i v =
     (if i < length xs then xs[i := Some v]
      else xs @ replicate (i - length xs) None @ [Some v])"

text \<open>Reading a possibly sparse array: a hole reads as \<^verbatim>\<open>undefined\<close>.\<close>

definition cell_at :: "'a option list \<Rightarrow> nat \<Rightarrow> 'a option" where
  "cell_at xs j = (if j < length xs then xs ! j else None)"

text \<open>\<^verbatim>\<open>xs.indexOf(x)\<close>: the first position of \<open>x\<close>, or \<open>-1\<close>.\<close>

fun indexOf :: "'a list \<Rightarrow> 'a \<Rightarrow> int" where
  "indexOf [] x = - 1"
| "indexOf (y # ys) x =
     (if y = x then 0 else (let i = indexOf ys x in if i = - 1 then - 1 else i + 1))"

text \<open>
  An object such as \<^verbatim>\<open>rowData\<close> or a mapping query is the list of its own entries in
  the order in which they were given (the order of the object literal, or of the
  assignments that made them); its keys are distinct. Values are strings, as the
  signatures of the methods declare them.
\<close>

type_synonym 'v obj = "(string \<times> 'v) list"

definition isDigit :: "char \<Rightarrow> bool" where
  "isDigit c = (let n = (of_char c :: nat) in 48 \<le> n \<and> n \<le> 57)"

text \<open>
  \<^verbatim>\<open>parseInt\<close> of a string of decimal digits. The value is exact here, where JavaScript
  rounds to a double beyond \<open>2\<^sup>5\<^sup>3\<close>; the row numbers of a sheet are far below that.
\<close>

definition parseInt :: "string \<Rightarrow> int" where
  "parseInt digits = foldl (\<lambda>n c. 10 * n + (int (of_char c) - 48)) 0 digits"

text \<open>
  A key is an array index if it is the canonical decimal form of an integer from \<open>0\<close> to
  \<open>2\<^sup>3\<^sup>2 - 2\<close>. \<^verbatim>\<open>Object.keys\<close> and \<^verbatim>\<open>Object.entries\<close> enumerate the own
  properties of an object with the array indices first, in ascending numeric order, and
  the other keys after them in the order in which they were given.
\<close>

definition isArrayIndex :: "string \<Rightarrow> bool" where
  "isArrayIndex key =
     (key \<noteq> [] \<and> list_all isDigit key \<and> (key = ''0'' \<or> hd key \<noteq> CHR ''0'')
      \<and> parseInt key < 4294967295)"

definition objectEntries :: "'v obj \<Rightarrow> (string \<times> 'v) list" where
  "objectEntries obj =
     sort_key (\<lambda>(key, value). parseInt key) (filter (\<lambda>(key, value). isArrayIndex key) obj)
     @ filter (\<lambda>(key, value). \<not> isArrayIndex key) obj"

definition objectKeys :: "'v obj \<Rightarrow> string list" where
  "objectKeys obj = map fst (objectEntries obj)"

text \<open>
  Reading a property, \<^verbatim>\<open>obj[key]\<close>: an own property gives its value; otherwise the
  property is looked up on \<^verbatim>\<open>Object.prototype\<close>, which has the names below (each a
  function, or for \<^verbatim>\<open>__proto__\<close> the prototype object itself); any other key gives
  \<^verbatim>\<open>undefined\<close>.
\<close>

definition inheritedProperty :: "string \<Rightarrow> bool" where
  "inheritedProperty key =
     (key \<in> set [''constructor'', ''hasOwnProperty'', ''isPrototypeOf'',
        ''propertyIsEnumerable'', ''toLocaleString'', ''toString'', ''valueOf'',
        ''__proto__'', ''__defineGetter__'', ''__defineSetter__'', ''__lookupGetter__'',
        ''__lookupSetter__''])"

datatype 'v property = Own 'v | FromPrototype string | Undefined

definition getProperty :: "'v obj \<Rightarrow> string \<Rightarrow> 'v property" where
  "getProperty obj key =
     (case map_of obj key of
        Some value \<Rightarrow> Own value
      | None \<Rightarrow> if inheritedProperty key then FromPrototype key else Undefined)"

text \<open>
  Writing a property, \<^verbatim>\<open>obj[key] = value\<close>, for a value that is a string or
  \<^verbatim>\<open>undefined\<close>: an own property keeps its place and takes the value, a new one comes
  last. The key \<^verbatim>\<open>__proto__\<close> is the accessor of \<^verbatim>\<open>Object.prototype\<close>, whose setter
  ignores such a value, so that no property is made.
\<close>

definition setProperty :: "'v obj \<Rightarrow> string \<Rightarrow> 'v \<Rightarrow> 'v obj" where
  "setProperty obj key value =
     (if key = ''__proto__'' \<and> map_of obj key = None then obj else AList.update key value obj)"

section \<open>Errors, requests and the replies of the remote service\<close>

text \<open>
  Every public method catches whatever is thrown in its body and throws a new error whose
  message is its own prefix followed by the cause. The causes that the code itself can
  produce are the two validation errors and the \<^verbatim>\<open>TypeError\<close> of a property read on
  \<^verbatim>\<open>undefined\<close> or \<^verbatim>\<open>null\<close>.
\<close>

datatype cause =
    HeaderRowIndex
  | InvalidKey string
  | TypeError
  | ErrorGettingSheetId cause

datatype error =
    ErrorFindingRow cause
  | ErrorAddingRow cause
  | ErrorUpdatingRow cause
  | ErrorDeletingRow cause

record GSheets =
  spreadsheetId :: string
  sheetName :: string

text \<open>
  A range is either the whole sheet (\<^verbatim>\<open>range: this.sheetName\<close>) or the template string
  \<^verbatim>\<open>`${this.sheetName}!A${rowIndex}`\<close>, kept as its two components.
\<close>

datatype range = WholeSheet string | RowStart string int

record deleteDimension =
  sheetId :: int
  startIndex :: int
  endIndex :: int

text \<open>
  The requests sent to the service, each with the spreadsheet identifier first. The
  constant fields (\<^verbatim>\<open>valueInputOption: "USER_ENTERED"\<close>, \<^verbatim>\<open>dimension: "ROWS"\<close>) are
  left out.
\<close>

text \<open>
  A cell of an appended row: a string, or the value of a property inherited from
  \<^verbatim>\<open>Object.prototype\<close> (a function or an object, not a string).
\<close>

datatype cell = Text string | Inherited string

datatype request =
    ValuesGet string range
  | ValuesUpdate string range "string list list"
  | ValuesAppend string range "cell list list"
  | ValuesBatchUpdate string "(range \<times> string option list list) list"
  | SpreadsheetsGet string
  | SpreadsheetsBatchUpdate string "deleteDimension list"

datatype reply = EmptyReply

text \<open>
  What the service answers during one call of a method. \<open>values\<close> is
  \<^verbatim>\<open>response.data.values\<close> of \<^verbatim>\<open>spreadsheets.values.get\<close>: absent for a sheet without
  content, otherwise the rows, each a list of cell strings without its trailing empty
  cells. \<open>updatedRange\<close> is \<^verbatim>\<open>appendResponse.data.updates.updatedRange\<close>, \<open>batchResult\<close>
  the \<^verbatim>\<open>data\<close> of \<^verbatim>\<open>values.batchUpdate\<close>, \<open>sheets\<close> the title and identifier of every
  sheet in \<^verbatim>\<open>sheetsResponse.data.sheets\<close>, and \<open>replies\<close> is \<^verbatim>\<open>result.data.replies\<close> of
  the structural \<^verbatim>\<open>batchUpdate\<close>. The service answers every request; transport failures
  are outside the model.
\<close>

record 'r service =
  "values" :: "string list list option"
  updatedRange :: string
  batchResult :: 'r
  sheets :: "(string \<times> int) list"
  replies :: "reply list"

type_synonym 'a io = "request list \<times> (error + 'a)"

section \<open>The key check\<close>

text \<open>
  \<^verbatim>\<open>Object.keys(o).find((key) => key[0] !== key[0].toUpperCase())\<close>. For the empty key
  \<^verbatim>\<open>key[0]\<close> is \<^verbatim>\<open>undefined\<close> and the call of \<^verbatim>\<open>toUpperCase\<close> on it throws.
\<close>

fun find_invalidKey :: "string list \<Rightarrow> cause + string option" where
  "find_invalidKey [] = Inr None"
| "find_invalidKey (key # keys) =
     (case key of
        [] \<Rightarrow> Inl TypeError
      | c # _ \<Rightarrow> if [c] \<noteq> toUpperCase [c] then Inr (Some key) else find_invalidKey keys)"

text \<open>
  The check as each method performs it: \<^verbatim>\<open>if (invalidKey) throw ...\<close>, where a string is
  truthy unless it is empty.
\<close>

definition checkKeys :: "string list \<Rightarrow> cause option" where
  "checkKeys keys =
     (case find_invalidKey keys of
        Inl e \<Rightarrow> Some e
      | Inr None \<Rightarrow> None
      | Inr (Some invalidKey) \<Rightarrow> if invalidKey \<noteq> [] then Some (InvalidKey invalidKey) else None)"

section \<open>findRow\<close>

datatype query = Index int | Mapping "string obj"

record found =
  rowIndex :: int
  data :: "string option obj"

text \<open>
  \<^verbatim>\<open>headers.forEach((header, index) => { data[header] = row[index]; })\<close> on a fresh
  object: a header that occurs twice keeps its first place and its last value. The
  entries of \<open>data\<close> are in the order in which they were made.
\<close>

fun rowObject :: "string list \<Rightarrow> string list \<Rightarrow> nat \<Rightarrow> string option obj \<Rightarrow> string option obj" where
  "rowObject [] row index acc = acc"
| "rowObject (header # headers) row index acc =
     rowObject headers row (Suc index) (setProperty acc header (js_nth row (int index)))"

definition cellMatches :: "string option \<Rightarrow> string \<Rightarrow> bool" where
  "cellMatches cellValue value =
     (case cellValue of
        Some s \<Rightarrow>
          list_ex (\<lambda>v. v = toLowerCase value)
            (map (\<lambda>v. toLowerCase (trim v)) (split_on CHR '','' s))
      | None \<Rightarrow> cellValue = Some value)"

text \<open>\<^verbatim>\<open>Object.entries(query).every(([key, value]) => ...)\<close>\<close>

definition matchesQuery :: "string list \<Rightarrow> string list \<Rightarrow> string obj \<Rightarrow> bool" where
  "matchesQuery headers row query =
     list_all (\<lambda>(key, value).
        let colIndex = indexOf headers key
        in if colIndex = - 1 then False else cellMatches (js_nth row colIndex) value)
       (objectEntries query)"

text \<open>
  The body of \<^verbatim>\<open>rows.forEach((row, index) => ...)\<close> of the mapping branch, from position
  \<open>index\<close> on: the header row is skipped, and the key check is made again at every data
  row, so that it throws at the first data row or not at all.
\<close>

fun scanRows :: "string list \<Rightarrow> string obj \<Rightarrow> nat \<Rightarrow> string list list \<Rightarrow> found list
    \<Rightarrow> cause + found list" where
  "scanRows headers query index [] results = Inr results"
| "scanRows headers query index (row # rows) results =
     (if index = 0 then scanRows headers query (Suc index) rows results
      else (case checkKeys (objectKeys query) of
              Some e \<Rightarrow> Inl e
            | None \<Rightarrow>
                if matchesQuery headers row query
                then scanRows headers query (Suc index) rows
                       (results @ [\<lparr>rowIndex = int index + 1, data = rowObject headers row 0 []\<rparr>])
                else scanRows headers query (Suc index) rows results))"

text \<open>
  The numeric branch. \<^verbatim>\<open>rows[query - 1][index]\<close> is evaluated once for every header, so a
  position without a row throws only if there is a header to iterate over.
\<close>

definition findByIndex :: "string list \<Rightarrow> string list list \<Rightarrow> int \<Rightarrow> cause + found list" where
  "findByIndex headers rows query =
     (if query = 1 then Inl HeaderRowIndex
      else if query \<le> int (length rows) then
        (case js_nth rows (query - 1) of
           Some row \<Rightarrow> Inr [\<lparr>rowIndex = query, data = rowObject headers row 0 []\<rparr>]
         | None \<Rightarrow> if headers = [] then Inr [\<lparr>rowIndex = query, data = []\<rparr>] else Inl TypeError)
      else Inr [])"

definition wrap :: "(cause \<Rightarrow> error) \<Rightarrow> cause + 'a \<Rightarrow> error + 'a" where
  "wrap prefix r = (case r of Inl e \<Rightarrow> Inl (prefix e) | Inr x \<Rightarrow> Inr x)"

definition findRow :: "GSheets \<Rightarrow> 'r service \<Rightarrow> query \<Rightarrow> found list io" where
  "findRow this svc query =
     ([ValuesGet (spreadsheetId this) (WholeSheet (sheetName this))],
      wrap ErrorFindingRow
        (case values svc of
           None \<Rightarrow> Inr []
         | Some rows \<Rightarrow>
             (case rows of
                [] \<Rightarrow> Inr []
              | headers # _ \<Rightarrow>
                  (case query of
                     Index n \<Rightarrow> findByIndex headers rows n
                   | Mapping q \<Rightarrow> scanRows headers q 0 rows []))))"

section \<open>addRow\<close>

text \<open>
  \<^verbatim>\<open>rowData[header] || ""\<close>: \<^verbatim>\<open>undefined\<close> and the empty string are falsy, an
  inherited function or object is truthy.
\<close>

definition js_or_empty :: "string property \<Rightarrow> cell" where
  "js_or_empty x =
     (case x of
        Own v \<Rightarrow> if v = [] then Text [] else Text v
      | FromPrototype name \<Rightarrow> Inherited name
      | Undefined \<Rightarrow> Text [])"

text \<open>
  \<^verbatim>\<open>Object.keys(rowData).forEach((key) => { if (!headers.includes(key)) headers.push(key); })\<close>
\<close>

fun pushMissing :: "string list \<Rightarrow> string list \<Rightarrow> string list" where
  "pushMissing headers [] = headers"
| "pushMissing headers (key # keys) =
     pushMissing (if key \<in> set headers then headers else headers @ [key]) keys"

text \<open>
  \<^verbatim>\<open>parseInt(updatedRange.split(":")[0].match(/\d+$/)[0])\<close>: the digits at the end of the
  part before the first colon; without a digit there the match is \<^verbatim>\<open>null\<close> and reading
  its element throws.
\<close>

definition parseRowIndex :: "string \<Rightarrow> cause + int" where
  "parseRowIndex updated =
     (case split_on CHR '':'' updated of
        [] \<Rightarrow> Inl TypeError
      | part # _ \<Rightarrow>
          (let digits = rev (takeWhile isDigit (rev part))
           in if digits = [] then Inl TypeError else Inr (parseInt digits)))"

text \<open>
  The header row to write, the content of the \<^verbatim>\<open>values.update\<close> request and the row to
  append. \<^verbatim>\<open>headers\<close> is \<^verbatim>\<open>response.data.values ? response.data.values[0] : null\<close>;
  without it the keys become the header row and only that row is written, otherwise the
  extended header row is written with \<^verbatim>\<open>response.data.values.slice(1)\<close>.
\<close>

definition addRowWrites :: "string list list option \<Rightarrow> string obj
    \<Rightarrow> string list list \<times> cell list" where
  "addRowWrites response rowData =
     (case (case response of None \<Rightarrow> None | Some rows \<Rightarrow> js_nth rows 0) of
        None \<Rightarrow>
          (let headers = objectKeys rowData
           in ([headers], map (\<lambda>header. js_or_empty (getProperty rowData header)) headers))
      | Some hs \<Rightarrow>
          (let headers = pushMissing hs (objectKeys rowData)
           in (headers # drop 1 (case response of None \<Rightarrow> [] | Some rows \<Rightarrow> rows),
               map (\<lambda>header. js_or_empty (getProperty rowData header)) headers)))"

definition addRow :: "GSheets \<Rightarrow> 'r service \<Rightarrow> string obj \<Rightarrow> (int \<times> string obj) io" where
  "addRow this svc rowData =
     (let get = ValuesGet (spreadsheetId this) (WholeSheet (sheetName this))
      in case checkKeys (objectKeys rowData) of
           Some e \<Rightarrow> ([get], Inl (ErrorAddingRow e))
         | None \<Rightarrow>
             (let (written, vals) = addRowWrites (values svc) rowData
              in ([get,
                   ValuesUpdate (spreadsheetId this) (WholeSheet (sheetName this)) written,
                   ValuesAppend (spreadsheetId this) (WholeSheet (sheetName this)) [vals]],
                  wrap ErrorAddingRow
                    (case parseRowIndex (updatedRange svc) of
                       Inl e \<Rightarrow> Inl e
                     | Inr i \<Rightarrow> Inr (i, rowData)))))"

section \<open>updateRow\<close>

datatype rowIndexes = One int | Many "int list"

text \<open>\<^verbatim>\<open>Array.isArray(rowIndexes) ? rowIndexes : [rowIndexes]\<close>\<close>

definition normalize :: "rowIndexes \<Rightarrow> int list" where
  "normalize r = (case r of One i \<Rightarrow> [i] | Many xs \<Rightarrow> xs)"

text \<open>
  The loop \<^verbatim>\<open>for (const [key, value] of Object.entries(rowData))\<close> over a copy of the
  existing row. \<^verbatim>\<open>headers\<close> is \<^verbatim>\<open>response.data.values[0]\<close>, which is \<^verbatim>\<open>undefined\<close> for
  an empty array of rows; \<^verbatim>\<open>headers.indexOf\<close> throws then.
\<close>

fun patchRow :: "string list option \<Rightarrow> string obj \<Rightarrow> string option list
    \<Rightarrow> cause + string option list" where
  "patchRow headers [] updatedValues = Inr updatedValues"
| "patchRow headers ((key, value) # entries) updatedValues =
     (case headers of
        None \<Rightarrow> Inl TypeError
      | Some hs \<Rightarrow>
          (let index = indexOf hs key
           in if index > - 1
              then patchRow headers entries (js_set updatedValues (nat index) value)
              else patchRow headers entries updatedValues))"

text \<open>
  \<^verbatim>\<open>response.data.values[rowIndex - 1] || []\<close>: a row of the value range is an array,
  which is truthy also when it is empty.
\<close>

definition existingRow :: "string list list \<Rightarrow> int \<Rightarrow> string list" where
  "existingRow rows i = (case js_nth rows (i - 1) of Some r \<Rightarrow> r | None \<Rightarrow> [])"

text \<open>One element of \<^verbatim>\<open>indexes.map((rowIndex) => ...)\<close>.\<close>

definition buildRequest :: "GSheets \<Rightarrow> string list list \<Rightarrow> string obj \<Rightarrow> int
    \<Rightarrow> cause + (range \<times> string option list list)" where
  "buildRequest this rows rowData i =
     (case patchRow (js_nth rows 0) (objectEntries rowData) (map Some (existingRow rows i)) of
        Inl e \<Rightarrow> Inl e
      | Inr updatedValues \<Rightarrow> Inr (RowStart (sheetName this) i, [updatedValues]))"

text \<open>\<^verbatim>\<open>xs.map(f)\<close> for a callback that may throw: the first exception ends the loop.\<close>

fun mapThrowing :: "('a \<Rightarrow> cause + 'b) \<Rightarrow> 'a list \<Rightarrow> cause + 'b list" where
  "mapThrowing f [] = Inr []"
| "mapThrowing f (x # xs) =
     (case f x of
        Inl e \<Rightarrow> Inl e
      | Inr y \<Rightarrow> (case mapThrowing f xs of Inl e \<Rightarrow> Inl e | Inr ys \<Rightarrow> Inr (y # ys)))"

definition updateRow :: "GSheets \<Rightarrow> 'r service \<Rightarrow> rowIndexes \<Rightarrow> string obj \<Rightarrow> 'r io" where
  "updateRow this svc rowIndexes rowData =
     (let indexes = normalize rowIndexes;
          get = ValuesGet (spreadsheetId this) (WholeSheet (sheetName this))
      in if 1 \<in> set indexes then ([], Inl (ErrorUpdatingRow HeaderRowIndex))
         else (case checkKeys (objectKeys rowData) of
                 Some e \<Rightarrow> ([], Inl (ErrorUpdatingRow e))
               | None \<Rightarrow>
                   (case values svc of
                      None \<Rightarrow> ([get], Inl (ErrorUpdatingRow TypeError))
                    | Some rows \<Rightarrow>
                        (case mapThrowing (buildRequest this rows rowData) indexes of
                           Inl e \<Rightarrow> ([get], Inl (ErrorUpdatingRow e))
                         | Inr requests \<Rightarrow>
                             ([get, ValuesBatchUpdate (spreadsheetId this) requests],
                              Inr (batchResult svc))))))"

section \<open>deleteRow\<close>

text \<open>
  \<^verbatim>\<open>sheetsResponse.data.sheets.find((s) => s.properties.title === this.sheetName)\<close>
  and then \<^verbatim>\<open>sheet.properties.sheetId\<close>, which throws when no sheet has the name.
\<close>

definition getSheetId :: "GSheets \<Rightarrow> 'r service \<Rightarrow> cause + int" where
  "getSheetId this svc =
     (case List.find (\<lambda>s. fst s = sheetName this) (sheets svc) of
        None \<Rightarrow> Inl (ErrorGettingSheetId TypeError)
      | Some sheet \<Rightarrow> Inr (snd sheet))"

text \<open>
  \<^verbatim>\<open>indexes.sort((a, b) => b - a)\<close>: the stable sort of the positions by the comparator,
  that is, by decreasing value.
\<close>

definition sortDescending :: "int list \<Rightarrow> int list" where
  "sortDescending indexes = sort_key (\<lambda>a. - a) indexes"

definition deleteRequests :: "int \<Rightarrow> int list \<Rightarrow> deleteDimension list" where
  "deleteRequests sheet_id sortedIndexes =
     map (\<lambda>index. \<lparr>sheetId = sheet_id, startIndex = index - 1, endIndex = index\<rparr>) sortedIndexes"

definition deleteRow :: "GSheets \<Rightarrow> 'r service \<Rightarrow> rowIndexes \<Rightarrow> nat io" where
  "deleteRow this svc rowIndexes =
     (let indexes = normalize rowIndexes;
          sortedIndexes = sortDescending indexes
      in case getSheetId this svc of
           Inl e \<Rightarrow> ([SpreadsheetsGet (spreadsheetId this)], Inl (ErrorDeletingRow e))
         | Inr sheet_id \<Rightarrow>
             ([SpreadsheetsGet (spreadsheetId this),
               SpreadsheetsBatchUpdate (spreadsheetId this) (deleteRequests sheet_id sortedIndexes)],
              Inr (length (replies svc))))"

section \<open>convertGoogleDriveLink\<close>

datatype jsvalue = JString string | JNumber int | JBoolean bool | JNull | JUndefined

definition isIdChar :: "char \<Rightarrow> bool" where
  "isIdChar c =
     (let n = (of_char c :: nat)
      in (97 \<le> n \<and> n \<le> 122) \<or> (65 \<le> n \<and> n \<le> 90) \<or> (48 \<le> n \<and> n \<le> 57)
         \<or> c = CHR ''_'' \<or> c = CHR ''-'')"

text \<open>
  \<^verbatim>\<open>url.match(/\/d\/([a-zA-Z0-9_-]+)/)\<close>, giving the first group of the match: the
  leftmost place where \<^verbatim>\<open>/d/\<close> is followed by a character of the class, and the longest
  run of such characters from there.
\<close>

fun regexMatch :: "string \<Rightarrow> string option" where
  "regexMatch [] = None"
| "regexMatch (c # cs) =
     (if c = CHR ''/'' \<and> take 2 cs = ''d/'' \<and> takeWhile isIdChar (drop 2 cs) \<noteq> []
      then Some (takeWhile isIdChar (drop 2 cs))
      else regexMatch cs)"

text \<open>The value returned; what the function writes to the console is left out.\<close>

definition convertGoogleDriveLink :: "jsvalue \<Rightarrow> jsvalue" where
  "convertGoogleDriveLink url =
     (case url of
        JString s \<Rightarrow>
          (case regexMatch s of
             Some group1 \<Rightarrow>
               if group1 \<noteq> [] then JString (''https://drive.google.com/uc?id='' @ group1) else url
           | None \<Rightarrow> url)
      | _ \<Rightarrow> url)"

section \<open>Vocabulary of the specification\<close>

text \<open>
  The specification speaks of keys that start with an uppercase letter. The letters are
  the ASCII letters; the empty key starts with no letter at all.
\<close>

definition isLowercaseLetter :: "char \<Rightarrow> bool" where
  "isLowercaseLetter c = (97 \<le> (of_char c :: nat) \<and> (of_char c :: nat) \<le> 122)"

definition isUppercaseLetter :: "char \<Rightarrow> bool" where
  "isUppercaseLetter c = (65 \<le> (of_char c :: nat) \<and> (of_char c :: nat) \<le> 90)"

definition startsWithUppercase :: "string \<Rightarrow> bool" where
  "startsWithUppercase key = (case key of [] \<Rightarrow> False | c # _ \<Rightarrow> isUppercaseLetter c)"

definition startsWithLowercase :: "string \<Rightarrow> bool" where
  "startsWithLowercase key = (case key of [] \<Rightarrow> False | c # _ \<Rightarrow> isLowercaseLetter c)"

text \<open>
  A request of updateRow that leaves the header row alone: the read of the value range,
  or a batched write in which every entry carries a single row and starts at column A of
  a row other than row 1 of this sheet.
\<close>

definition addressesDataRows :: "GSheets \<Rightarrow> request \<Rightarrow> bool" where
  "addressesDataRows this request =
     (case request of
        ValuesGet _ _ \<Rightarrow> True
      | ValuesBatchUpdate _ entries \<Rightarrow>
          list_all (\<lambda>(r, vals). length vals = 1 \<and>
             (case r of RowStart name i \<Rightarrow> name = sheetName this \<and> i \<noteq> 1 | WholeSheet _ \<Rightarrow> False))
            entries
      | _ \<Rightarrow> False)"

text \<open>
  The match of a data row against a mapping query, in the words of the specification:
  every query key is a header, and the cell of the row in the first column with that
  header is a string one of whose comma-separated parts, trimmed and lowercased, equals
  the lowercased query value. A cell that is not a string can only be an absent one (the
  row is shorter than the column), which is not strictly equal to the query value, a
  string.
\<close>

definition rowMatchesSpec :: "string list \<Rightarrow> string list \<Rightarrow> string obj \<Rightarrow> bool" where
  "rowMatchesSpec headers row query =
     (\<forall>(key, value) \<in> set query.
        key \<in> set headers \<and>
        (case js_nth row (int (length (takeWhile (\<lambda>h. h \<noteq> key) headers))) of
           Some cell \<Rightarrow>
             toLowerCase value
               \<in> set (map (\<lambda>part. toLowerCase (trim part)) (split_on CHR '','' cell))
         | None \<Rightarrow> False))"

text \<open>
  The pattern \<^verbatim>\<open>/d/<id>\<close> occurs in a string at position \<open>p\<close>: the three characters
  from \<open>p\<close> are \<^verbatim>\<open>/d/\<close> and the next one belongs to the identifier class.
\<close>

definition matchesAt :: "string \<Rightarrow> nat \<Rightarrow> bool" where
  "matchesAt url p =
     (take 3 (drop p url) = ''/d/''
      \<and> (case drop (p + 3) url of [] \<Rightarrow> False | c # _ \<Rightarrow> isIdChar c))"

text \<open>
  Keys on which the key check is known to pass: the first character is an ASCII
  character other than a lowercase letter (an uppercase letter, a digit, a sign).
\<close>

definition acceptedByKeyCheck :: "string \<Rightarrow> bool" where
  "acceptedByKeyCheck key =
     (case key of [] \<Rightarrow> False | c # _ \<Rightarrow> (of_char c :: nat) < 128 \<and> \<not> isLowercaseLetter c)"

section \<open>Properties of the enumeration of an object\<close>

lemma set_objectEntries: "set (objectEntries obj) = set obj"
  by (auto simp: objectEntries_def)

lemma set_objectKeys: "set (objectKeys obj) = set (map fst obj)"
  by (simp add: objectKeys_def set_objectEntries)

lemma mset_objectEntries: "mset (objectEntries obj) = mset obj"
  by (simp add: objectEntries_def)

lemma distinct_objectKeys: "distinct (map fst obj) \<Longrightarrow> distinct (objectKeys obj)"
proof -
  assume d: "distinct (map fst obj)"
  have "mset (map fst (objectEntries obj)) = mset (map fst obj)"
    by (simp only: mset_map mset_objectEntries)
  then have "distinct (map fst (objectEntries obj)) \<longleftrightarrow> distinct (map fst obj)"
    by (rule mset_eq_imp_distinct_iff)
  with d show ?thesis
    unfolding objectKeys_def by blast
qed

lemma objectEntries_filter: "filter Q (objectEntries obj) = objectEntries (filter Q obj)"
proof -
  have "filter Q (filter P obj) = filter P (filter Q obj)" for P :: "string \<times> 'a \<Rightarrow> bool"
    by (simp add: conj_commute)
  then show ?thesis
    by (simp only: objectEntries_def filter_append filter_sort)
qed

lemma objectEntries_without_array_index:
  "\<forall>key \<in> set (map fst obj). \<not> isArrayIndex key \<Longrightarrow> objectEntries obj = obj"
proof -
  assume a: "\<forall>key \<in> set (map fst obj). \<not> isArrayIndex key"
  then have "filter (\<lambda>(key, value). isArrayIndex key) obj = []"
    by (auto simp: filter_empty_conv)
  moreover from a have "filter (\<lambda>(key, value). \<not> isArrayIndex key) obj = obj"
    by (auto simp: filter_id_conv)
  ultimately show ?thesis
    by (simp add: objectEntries_def)
qed

lemma isArrayIndex_starts_with_digit:
  "isArrayIndex key \<Longrightarrow> key \<noteq> [] \<and> isDigit (hd key)"
  by (cases key) (simp_all add: isArrayIndex_def)

section \<open>Properties of the key check\<close>

text \<open>
  The test \<^verbatim>\<open>key[0] !== key[0].toUpperCase()\<close> singles out the keys that start with a
  lowercase letter; every other ASCII first character (an uppercase letter, a digit, an
  underscore, ...) is its own upper-case form.
\<close>

lemma toUpperCase_char_fixed: "toUpperCase_char c = c \<longleftrightarrow> \<not> isLowercaseLetter c"
proof (cases "isLowercaseLetter c")
  case True
  have "(of_char c :: nat) - 32 < 256"
    using nat_of_char_less_256 [of c] by arith
  with True have "(of_char (toUpperCase_char c) :: nat) = of_char c - 32"
    by (simp add: toUpperCase_char_def isLowercaseLetter_def Let_def)
  with True show ?thesis
    by (auto simp: isLowercaseLetter_def)
next
  case False
  then show ?thesis by (auto simp: toUpperCase_char_def isLowercaseLetter_def Let_def)
qed

lemma find_invalidKey_Cons:
  "find_invalidKey (key # keys) =
     (if key = [] then Inl TypeError
      else if startsWithLowercase key then Inr (Some key) else find_invalidKey keys)"
  using toUpperCase_char_fixed [of "hd key"]
  by (cases key) (auto simp: startsWithLowercase_def toUpperCase_def)

lemma checkKeys_Cons:
  "checkKeys (key # keys) =
     (if key = [] then Some TypeError
      else if startsWithLowercase key then Some (InvalidKey key) else checkKeys keys)"
  by (simp add: checkKeys_def find_invalidKey_Cons del: find_invalidKey.simps)

lemma checkKeys_Nil: "checkKeys [] = None"
  by (simp add: checkKeys_def)

lemma checkKeys_None_iff:
  "checkKeys keys = None \<longleftrightarrow> (\<forall>k \<in> set keys. k \<noteq> [] \<and> \<not> startsWithLowercase k)"
  by (induction keys) (auto simp: checkKeys_Cons checkKeys_Nil)

lemma checkKeys_first_lowercase:
  "\<forall>k \<in> set pre. k \<noteq> [] \<and> \<not> startsWithLowercase k \<Longrightarrow> startsWithLowercase key
   \<Longrightarrow> checkKeys (pre @ key # post) = Some (InvalidKey key)"
  by (induction pre) (auto simp: checkKeys_Cons startsWithLowercase_def)

lemma isArrayIndex_not_lowercase: "isArrayIndex key \<Longrightarrow> key \<noteq> [] \<and> \<not> startsWithLowercase key"
  using isArrayIndex_starts_with_digit [of key]
  by (cases key) (auto simp: startsWithLowercase_def isLowercaseLetter_def isDigit_def Let_def)

lemma isArrayIndex_not_uppercase: "startsWithUppercase key \<Longrightarrow> \<not> isArrayIndex key"
  using isArrayIndex_starts_with_digit [of key]
  by (cases key) (auto simp: startsWithUppercase_def isUppercaseLetter_def isDigit_def Let_def)

lemma acceptedByKeyCheck_passes:
  "acceptedByKeyCheck key \<Longrightarrow> key \<noteq> [] \<and> \<not> startsWithLowercase key"
  by (cases key) (simp_all add: acceptedByKeyCheck_def startsWithLowercase_def)

lemma startsWithUppercase_accepted: "startsWithUppercase key \<Longrightarrow> acceptedByKeyCheck key"
  by (cases key)
     (auto simp: acceptedByKeyCheck_def startsWithUppercase_def isUppercaseLetter_def
        isLowercaseLetter_def)

lemma checkKeys_objectKeys_None:
  "checkKeys (objectKeys obj) = None \<longleftrightarrow>
     (\<forall>k \<in> set (map fst obj). k \<noteq> [] \<and> \<not> startsWithLowercase k)"
  by (simp only: checkKeys_None_iff set_objectKeys)

lemma checkKeys_objectKeys_first_lowercase:
  "\<forall>k \<in> set (map fst pre). k \<noteq> [] \<and> \<not> startsWithLowercase k \<Longrightarrow> startsWithLowercase key
   \<Longrightarrow> checkKeys (objectKeys (pre @ (key, v) # post)) = Some (InvalidKey key)"
proof -
  assume pre: "\<forall>k \<in> set (map fst pre). k \<noteq> [] \<and> \<not> startsWithLowercase k"
    and key: "startsWithLowercase key"
  let ?indices = "sort_key (\<lambda>(key, value). parseInt key)
      (filter (\<lambda>(key, value). isArrayIndex key) (pre @ (key, v) # post))"
  let ?before = "map fst ?indices @ map fst (filter (\<lambda>(key, value). \<not> isArrayIndex key) pre)"
  let ?after = "map fst (filter (\<lambda>(key, value). \<not> isArrayIndex key) post)"
  from key have ni: "\<not> isArrayIndex key"
    using isArrayIndex_not_lowercase by blast
  then have shape: "objectKeys (pre @ (key, v) # post) = ?before @ key # ?after"
    by (simp add: objectKeys_def objectEntries_def)
  have "\<forall>k \<in> set ?before. k \<noteq> [] \<and> \<not> startsWithLowercase k"
  proof
    fix k assume "k \<in> set ?before"
    then consider "k \<in> set (map fst ?indices)"
      | "k \<in> set (map fst (filter (\<lambda>(key, value). \<not> isArrayIndex key) pre))"
      by auto
    then show "k \<noteq> [] \<and> \<not> startsWithLowercase k"
    proof cases
      case 1
      with ni have "isArrayIndex k" by auto
      then show ?thesis by (rule isArrayIndex_not_lowercase)
    next
      case 2
      then have "k \<in> set (map fst pre)" by auto
      with pre show ?thesis by blast
    qed
  qed
  then have "checkKeys (?before @ key # ?after) = Some (InvalidKey key)"
    using key by (rule checkKeys_first_lowercase)
  with shape show ?thesis by simp
qed

lemma addRow_rejects:
  "checkKeys (objectKeys rowData) = Some e \<Longrightarrow>
   addRow this svc rowData =
     ([ValuesGet (spreadsheetId this) (WholeSheet (sheetName this))], Inl (ErrorAddingRow e))"
  by (simp add: addRow_def)

section \<open>Claims about validation\<close>

text \<open>
  C1. The claim fails on the code at a key that starts with a digit: \<^verbatim>\<open>1st\<close> does not
  start with an uppercase letter, yet addRow raises no Validation error, writes the key
  as a header and appends the row. The test \<^verbatim>\<open>key[0] !== key[0].toUpperCase()\<close> lets
  every first character through that has no different upper-case form.
\<close>

theorem addRow_accepts_digit_key:
  "\<not> startsWithUppercase ''1st''
   \<and> addRow \<lparr>spreadsheetId = ''id'', sheetName = ''test''\<rparr>
        \<lparr>values = Some [[''Name''], [''A'']], updatedRange = ''test!A3:B3'',
         batchResult = (), sheets = [], replies = []\<rparr> [(''1st'', ''B'')]
     = ([ValuesGet ''id'' (WholeSheet ''test''),
         ValuesUpdate ''id'' (WholeSheet ''test'') [[''Name'', ''1st''], [''A'']],
         ValuesAppend ''id'' (WholeSheet ''test'') [[Text [], Text ''B'']]],
        Inr (3, [(''1st'', ''B'')]))"
  by code_simp

text \<open>
  The other way in which the check stays silent: findRow makes it inside the loop over
  the data rows, so on a sheet that holds only its header row a mapping query gives the
  empty sequence whatever its keys are.
\<close>

lemma findRow_header_only_sheet:
  "values svc = Some [headers] \<Longrightarrow>
   findRow this svc (Mapping query) =
     ([ValuesGet (spreadsheetId this) (WholeSheet (sheetName this))], Inr [])"
  by (simp add: findRow_def wrap_def)

text \<open>
  C2 (as amended). For every rowData in which a key starts with a lowercase letter, the
  keys before it being non-empty and not starting with a lowercase letter, addRow raises
  the Validation error for that key after exactly one request, the read of the value
  range, and before any write: no update and no append request is sent.
\<close>

theorem addRow_key_check_after_read:
  "(\<forall>k \<in> set (map fst pre). k \<noteq> [] \<and> \<not> startsWithLowercase k) \<Longrightarrow> startsWithLowercase key \<Longrightarrow>
   addRow this svc (pre @ (key, v) # post)
     = ([ValuesGet (spreadsheetId this) (WholeSheet (sheetName this))],
        Inl (ErrorAddingRow (InvalidKey key)))"
  by (rule addRow_rejects) (rule checkKeys_objectKeys_first_lowercase)

theorem addRow_key_check_after_read_witness:
  "startsWithLowercase ''name''
   \<and> addRow \<lparr>spreadsheetId = ''id'', sheetName = ''test''\<rparr>
        \<lparr>values = None, updatedRange = ''test!A2:C2'', batchResult = (),
         sheets = [], replies = []\<rparr>
        ([(''Age'', ''test age'')] @ (''name'', ''Test'') # [(''Quality'', ''test quality'')])
       = ([ValuesGet ''id'' (WholeSheet ''test'')], Inl (ErrorAddingRow (InvalidKey ''name'')))"
  using addRow_key_check_after_read [where pre = "[(''Age'', ''test age'')]"
      and key = "''name''" and v = "''Test''" and post = "[(''Quality'', ''test quality'')]"
      and this = "\<lparr>spreadsheetId = ''id'', sheetName = ''test''\<rparr>"
      and svc = "\<lparr>values = None, updatedRange = ''test!A2:C2'', batchResult = (),
         sheets = [], replies = []\<rparr>"]
  by (simp add: startsWithLowercase_def isLowercaseLetter_def)

text \<open>
  C2 as stated fails: with the lowercase key \<^verbatim>\<open>name\<close> the requests issued by addRow
  are not none, the read of the value range has been sent.
\<close>

theorem addRow_reads_before_key_check:
  "\<not> startsWithUppercase ''name''
   \<and> fst (addRow \<lparr>spreadsheetId = ''id'', sheetName = ''test''\<rparr>
        \<lparr>values = None, updatedRange = ''test!A2:C2'', batchResult = (),
         sheets = [], replies = []\<rparr>
        [(''name'', ''Test''), (''Age'', ''test age''), (''Quality'', ''test quality'')])
       = [ValuesGet ''id'' (WholeSheet ''test'')]"
  by code_simp

text \<open>
  C3 (as amended). updateRow fails with the Validation error, before any request, whenever
  the normalized index sequence contains position 1, for every sheet state, the empty
  sheet included. findRow(1) fails with the Validation error for every sheet whose value
  range has at least one row; on a sheet without a value range it returns the empty
  sequence.
\<close>

theorem header_row_rejected:
  "(1 \<in> set (normalize rowIndexes) \<longrightarrow>
      updateRow this svc rowIndexes rowData = ([], Inl (ErrorUpdatingRow HeaderRowIndex)))
   \<and> (values svc' = Some (row # rows) \<longrightarrow>
        findRow this svc' (Index 1)
          = ([ValuesGet (spreadsheetId this) (WholeSheet (sheetName this))],
             Inl (ErrorFindingRow HeaderRowIndex)))
   \<and> (values svc'' = None \<longrightarrow>
        findRow this svc'' (Index 1)
          = ([ValuesGet (spreadsheetId this) (WholeSheet (sheetName this))], Inr []))"
  by (simp add: updateRow_def findRow_def findByIndex_def wrap_def)

theorem header_row_rejected_witness:
  "1 \<in> set (normalize (Many [3, 1]))
   \<and> updateRow \<lparr>spreadsheetId = ''id'', sheetName = ''test''\<rparr>
        \<lparr>values = None, updatedRange = '''', batchResult = (), sheets = [], replies = []\<rparr>
        (Many [3, 1]) [(''Name'', ''not updated row'')]
       = ([], Inl (ErrorUpdatingRow HeaderRowIndex))
   \<and> findRow \<lparr>spreadsheetId = ''id'', sheetName = ''test''\<rparr>
        \<lparr>values = Some [[''Name'']], updatedRange = '''', batchResult = (), sheets = [],
         replies = []\<rparr> (Index 1)
       = ([ValuesGet ''id'' (WholeSheet ''test'')], Inl (ErrorFindingRow HeaderRowIndex))
   \<and> findRow \<lparr>spreadsheetId = ''id'', sheetName = ''test''\<rparr>
        \<lparr>values = None, updatedRange = ''x'', batchResult = (), sheets = [],
         replies = []\<rparr> (Index 1)
       = ([ValuesGet ''id'' (WholeSheet ''test'')], Inr [])"
  using header_row_rejected [where rowIndexes = "Many [3, 1]"
      and svc'' = "\<lparr>values = None, updatedRange = ''x'', batchResult = (), sheets = [],
                    replies = []\<rparr>"
      and this = "\<lparr>spreadsheetId = ''id'', sheetName = ''test''\<rparr>"
      and svc = "\<lparr>values = None, updatedRange = '''', batchResult = (), sheets = [],
                  replies = []\<rparr>"
      and rowData = "[(''Name'', ''not updated row'')]"
      and svc' = "\<lparr>values = Some [[''Name'']], updatedRange = '''', batchResult = (),
                   sheets = [], replies = []\<rparr>"
      and row = "[''Name'']" and rows = "[]"]
  by (simp add: normalize_def)

text \<open>
  C3 as stated fails: on a sheet without a value range findRow(1) returns the empty
  sequence, since the test for an empty sheet comes before the test of the position.
\<close>

theorem findRow_header_position_on_empty_sheet:
  "findRow \<lparr>spreadsheetId = ''id'', sheetName = ''test''\<rparr>
     \<lparr>values = None, updatedRange = '''', batchResult = (), sheets = [], replies = []\<rparr>
     (Index 1)
   = ([ValuesGet ''id'' (WholeSheet ''test'')], Inr [])"
  by (simp add: findRow_def wrap_def)

text \<open>
  C4. For every integer n greater than the number of rows of the value range, findRow(n)
  returns the empty sequence and raises no error; on a sheet without a value range
  findRow returns the empty sequence for every query, integer or mapping.
\<close>

theorem findRow_empty_result:
  "(int (case values svc of None \<Rightarrow> 0 | Some rows \<Rightarrow> length rows) < n \<longrightarrow>
      findRow this svc (Index n)
        = ([ValuesGet (spreadsheetId this) (WholeSheet (sheetName this))], Inr []))
   \<and> (values svc' = None \<longrightarrow>
        findRow this svc' query
          = ([ValuesGet (spreadsheetId this) (WholeSheet (sheetName this))], Inr []))"
  by (auto simp: findRow_def findByIndex_def wrap_def split: option.splits list.splits)

theorem findRow_empty_result_witness:
  "int (case values \<lparr>values = Some [[''Name''], [''A'']], updatedRange = '''',
          batchResult = (), sheets = [], replies = []\<rparr>
        of None \<Rightarrow> 0 | Some rows \<Rightarrow> length rows) < 3
   \<and> findRow \<lparr>spreadsheetId = ''id'', sheetName = ''test''\<rparr>
        \<lparr>values = Some [[''Name''], [''A'']], updatedRange = '''', batchResult = (),
         sheets = [], replies = []\<rparr> (Index 3)
       = ([ValuesGet ''id'' (WholeSheet ''test'')], Inr [])
   \<and> findRow \<lparr>spreadsheetId = ''id'', sheetName = ''test''\<rparr>
        \<lparr>values = None, updatedRange = '''', batchResult = (), sheets = [], replies = []\<rparr>
        (Mapping [(''name'', ''x'')])
       = ([ValuesGet ''id'' (WholeSheet ''test'')], Inr [])"
  using findRow_empty_result [where n = 3
      and this = "\<lparr>spreadsheetId = ''id'', sheetName = ''test''\<rparr>"
      and svc = "\<lparr>values = Some [[''Name''], [''A'']], updatedRange = '''',
                  batchResult = (), sheets = [], replies = []\<rparr>"
      and svc' = "\<lparr>values = None, updatedRange = '''', batchResult = (), sheets = [],
                   replies = []\<rparr>"
      and query = "Mapping [(''name'', ''x'')]"]
  by simp

section \<open>Claims about addRow\<close>

lemma pushMissing_distinct:
  "distinct keys \<Longrightarrow> pushMissing headers keys = headers @ filter (\<lambda>k. k \<notin> set headers) keys"
proof (induction keys arbitrary: headers)
  case Nil
  then show ?case by simp
next
  case (Cons key keys)
  then have "filter (\<lambda>k. k \<notin> set (headers @ [key])) keys = filter (\<lambda>k. k \<notin> set headers) keys"
    by (intro filter_cong) auto
  with Cons show ?case by simp
qed

lemma js_or_empty_getProperty:
  "header \<in> set (map fst rowData) \<or> \<not> inheritedProperty header \<Longrightarrow>
   js_or_empty (getProperty rowData header)
     = Text (case map_of rowData header of Some v \<Rightarrow> v | None \<Rightarrow> [])"
proof (cases "map_of rowData header")
  case None
  then have "header \<notin> set (map fst rowData)"
    by (simp add: map_of_eq_None_iff)
  moreover assume "header \<in> set (map fst rowData) \<or> \<not> inheritedProperty header"
  ultimately have "\<not> inheritedProperty header" by blast
  with None show ?thesis
    by (simp add: js_or_empty_def getProperty_def)
next
  case (Some v)
  then show ?thesis
    by (simp add: js_or_empty_def getProperty_def)
qed

lemma addRow_requests:
  "checkKeys (objectKeys rowData) = None \<Longrightarrow>
   fst (addRow this svc rowData) =
     [ValuesGet (spreadsheetId this) (WholeSheet (sheetName this)),
      ValuesUpdate (spreadsheetId this) (WholeSheet (sheetName this))
        (fst (addRowWrites (values svc) rowData)),
      ValuesAppend (spreadsheetId this) (WholeSheet (sheetName this))
        [snd (addRowWrites (values svc) rowData)]]"
  by (simp add: addRow_def Let_def split: prod.splits)

text \<open>
  What addRow does on the inputs that its documentation calls valid. For rowData whose
  keys all start with an uppercase letter (distinct, as the keys of an object are): on a
  sheet with no headers the keys of rowData, in their given order, are written as the
  header row and then the data row is appended; on a sheet with headers, none of which
  names a property of \<^verbatim>\<open>Object.prototype\<close>, every key of rowData that they lack is
  appended to them, in order, the extended header row is rewritten together with all
  existing data rows unchanged, and then the row is appended. In both cases the appended
  row holds, for each header, the value of rowData for that header, or the empty string
  where rowData has none.
\<close>

lemma addRow_header_reconciliation:
  "(\<forall>k \<in> set (map fst rowData). startsWithUppercase k) \<Longrightarrow>
   distinct (map fst rowData) \<Longrightarrow>
   (values svc = None \<or> values svc = Some [] \<longrightarrow>
      fst (addRow this svc rowData) =
        [ValuesGet (spreadsheetId this) (WholeSheet (sheetName this)),
         ValuesUpdate (spreadsheetId this) (WholeSheet (sheetName this)) [map fst rowData],
         ValuesAppend (spreadsheetId this) (WholeSheet (sheetName this))
           [map (\<lambda>header. Text (case map_of rowData header of Some v \<Rightarrow> v | None \<Rightarrow> []))
              (map fst rowData)]])
   \<and> (values svc' = Some (headers # rows) \<and> (\<forall>h \<in> set headers. \<not> inheritedProperty h) \<longrightarrow>
        fst (addRow this svc' rowData) =
          [ValuesGet (spreadsheetId this) (WholeSheet (sheetName this)),
           ValuesUpdate (spreadsheetId this) (WholeSheet (sheetName this))
             ((headers @ filter (\<lambda>k. k \<notin> set headers) (map fst rowData)) # rows),
           ValuesAppend (spreadsheetId this) (WholeSheet (sheetName this))
             [map (\<lambda>header. Text (case map_of rowData header of Some v \<Rightarrow> v | None \<Rightarrow> []))
                (headers @ filter (\<lambda>k. k \<notin> set headers) (map fst rowData))]])"
proof -
  assume keys: "\<forall>k \<in> set (map fst rowData). startsWithUppercase k"
    and d: "distinct (map fst rowData)"
  from keys have "\<forall>k \<in> set (map fst rowData). \<not> isArrayIndex k"
    using isArrayIndex_not_uppercase by blast
  then have "objectEntries rowData = rowData"
    by (rule objectEntries_without_array_index)
  then have ok: "objectKeys rowData = map fst rowData"
    by (simp add: objectKeys_def)
  from keys have "\<forall>k \<in> set (map fst rowData). k \<noteq> [] \<and> \<not> startsWithLowercase k"
    using startsWithUppercase_accepted acceptedByKeyCheck_passes by blast
  then have c: "checkKeys (objectKeys rowData) = None"
    by (simp only: checkKeys_objectKeys_None)
  have own: "map (\<lambda>header. js_or_empty (getProperty rowData header)) hs
      = map (\<lambda>header. Text (case map_of rowData header of Some v \<Rightarrow> v | None \<Rightarrow> [])) hs"
    if "\<forall>h \<in> set hs. h \<in> set (map fst rowData) \<or> \<not> inheritedProperty h" for hs
    using that by (intro map_cong refl js_or_empty_getProperty) blast
  have none: "addRowWrites None rowData =
      ([map fst rowData],
       map (\<lambda>header. Text (case map_of rowData header of Some v \<Rightarrow> v | None \<Rightarrow> []))
         (map fst rowData))"
    using own [of "map fst rowData"] by (simp add: addRowWrites_def ok)
  have nil: "addRowWrites (Some []) rowData = addRowWrites None rowData"
    by (simp add: addRowWrites_def js_nth_def)
  have some: "addRowWrites (Some (headers # rows)) rowData =
      ((headers @ filter (\<lambda>k. k \<notin> set headers) (map fst rowData)) # rows,
       map (\<lambda>header. Text (case map_of rowData header of Some v \<Rightarrow> v | None \<Rightarrow> []))
         (headers @ filter (\<lambda>k. k \<notin> set headers) (map fst rowData)))"
    if h: "\<forall>h \<in> set headers. \<not> inheritedProperty h"
  proof -
    have "\<forall>h \<in> set (headers @ filter (\<lambda>k. k \<notin> set headers) (map fst rowData)).
        h \<in> set (map fst rowData) \<or> \<not> inheritedProperty h"
      using h by auto
    from own [OF this] pushMissing_distinct [OF d, of headers] show ?thesis
      by (simp add: addRowWrites_def js_nth_def ok)
  qed
  show ?thesis
    using none nil some by (auto simp: addRow_requests [OF c])
qed

text \<open>
  C5. The claim fails on the code at a rowData with a key that is an array index: for
  the keys \<^verbatim>\<open>Name\<close>, \<^verbatim>\<open>7\<close>, \<^verbatim>\<open>Age\<close>, given in this order, addRow on a sheet with no
  headers writes the header row \<^verbatim>\<open>7\<close>, \<^verbatim>\<open>Name\<close>, \<^verbatim>\<open>Age\<close>, since \<^verbatim>\<open>Object.keys\<close>
  enumerates array indices first. The key check lets such a key through although it does
  not start with an uppercase letter.
\<close>

theorem addRow_writes_array_index_key_first:
  "addRow \<lparr>spreadsheetId = ''id'', sheetName = ''test''\<rparr>
     \<lparr>values = None, updatedRange = ''test!A2:C2'', batchResult = (), sheets = [],
      replies = []\<rparr> [(''Name'', ''A''), (''7'', ''x''), (''Age'', ''5'')]
   = ([ValuesGet ''id'' (WholeSheet ''test''),
       ValuesUpdate ''id'' (WholeSheet ''test'') [[''7'', ''Name'', ''Age'']],
       ValuesAppend ''id'' (WholeSheet ''test'') [[Text ''x'', Text ''A'', Text ''5'']]],
      Inr (2, [(''Name'', ''A''), (''7'', ''x''), (''Age'', ''5'')]))"
  by code_simp

text \<open>
  A second input on which the appended row is not as described: for a header that names
  a property of \<^verbatim>\<open>Object.prototype\<close> and that rowData does not supply,
  \<^verbatim>\<open>rowData[header]\<close> is the inherited property, which is truthy, and not the empty
  string.
\<close>

lemma addRow_appends_inherited_property:
  "addRow \<lparr>spreadsheetId = ''id'', sheetName = ''test''\<rparr>
     \<lparr>values = Some [[''Name'', ''constructor''], [''A'', ''x'']],
      updatedRange = ''test!A3:B3'', batchResult = (), sheets = [], replies = []\<rparr>
     [(''Name'', ''B'')]
   = ([ValuesGet ''id'' (WholeSheet ''test''),
       ValuesUpdate ''id'' (WholeSheet ''test'') [[''Name'', ''constructor''], [''A'', ''x'']],
       ValuesAppend ''id'' (WholeSheet ''test'') [[Text ''B'', Inherited ''constructor'']]],
      Inr (3, [(''Name'', ''B'')]))"
  by code_simp

section \<open>Claims about updateRow\<close>

lemma indexOf_ge: "- 1 \<le> indexOf xs x"
  by (induction xs) (auto simp: Let_def)

lemma indexOf_absent: "indexOf xs x = - 1 \<longleftrightarrow> x \<notin> set xs"
proof (induction xs)
  case Nil
  then show ?case by simp
next
  case (Cons y ys)
  have "- 1 \<le> indexOf ys x" by (rule indexOf_ge)
  with Cons show ?case by (auto simp: Let_def)
qed

lemma indexOf_present:
  "x \<in> set xs \<Longrightarrow> 0 \<le> indexOf xs x \<and> nat (indexOf xs x) < length xs \<and> xs ! nat (indexOf xs x) = x"
proof (induction xs)
  case Nil
  then show ?case by simp
next
  case (Cons y ys)
  show ?case
  proof (cases "y = x")
    case True
    then show ?thesis by simp
  next
    case False
    with Cons have "0 \<le> indexOf ys x \<and> nat (indexOf ys x) < length ys \<and> ys ! nat (indexOf ys x) = x"
      by simp
    with False show ?thesis
      by (simp add: Let_def nat_add_distrib)
  qed
qed

lemma indexOf_column:
  "indexOf xs x = int j \<Longrightarrow> j < length xs \<and> xs ! j = x"
  using indexOf_present [of x xs] indexOf_absent [of xs x] by (cases "x \<in> set xs") auto

lemma indexOf_firstColumn:
  "indexOf xs x = (if x \<in> set xs then int (length (takeWhile (\<lambda>y. y \<noteq> x) xs)) else - 1)"
proof (induction xs)
  case Nil
  then show ?case by simp
next
  case (Cons y ys)
  then show ?case by (auto simp: Let_def)
qed

lemma indexOf_same_column:
  "x \<in> set xs \<Longrightarrow> indexOf xs y = int (nat (indexOf xs x)) \<Longrightarrow> y = x"
proof -
  assume x: "x \<in> set xs" and eq: "indexOf xs y = int (nat (indexOf xs x))"
  have "nat (indexOf xs x) < length xs \<and> xs ! nat (indexOf xs x) = y"
    using eq by (rule indexOf_column)
  then have e1: "xs ! nat (indexOf xs x) = y" ..
  have "0 \<le> indexOf xs x \<and> nat (indexOf xs x) < length xs \<and> xs ! nat (indexOf xs x) = x"
    using x by (rule indexOf_present)
  then have e2: "xs ! nat (indexOf xs x) = x" by blast
  from e1 [symmetric] e2 show "y = x" by (rule trans)
qed

lemma cell_at_js_set: "cell_at (js_set xs i v) j = (if j = i then Some v else cell_at xs j)"
  by (auto simp: cell_at_def js_set_def nth_append nth_Cons')

lemma patchRow_frame:
  "patchRow (Some hs) rowData updatedValues = Inr written \<Longrightarrow>
   \<forall>key \<in> set (map fst rowData). indexOf hs key \<noteq> int j \<Longrightarrow>
   cell_at written j = cell_at updatedValues j"
proof (induction "Some hs" rowData updatedValues rule: patchRow.induct)
  case (1 updatedValues)
  then show ?case by simp
next
  case (2 key "value" entries updatedValues)
  then show ?case
    by (auto simp: Let_def cell_at_js_set split: if_splits)
qed

lemma patchRow_total: "\<exists>written. patchRow (Some hs) rowData updatedValues = Inr written"
  by (induction "Some hs" rowData updatedValues rule: patchRow.induct) (auto simp: Let_def)

lemma patchRow_written:
  "patchRow (Some hs) rowData updatedValues = Inr written \<Longrightarrow> distinct (map fst rowData) \<Longrightarrow>
   (key, v) \<in> set rowData \<Longrightarrow> key \<in> set hs \<Longrightarrow>
   cell_at written (nat (indexOf hs key)) = Some v"
proof (induction rowData arbitrary: updatedValues)
  case Nil
  then show ?case by simp
next
  case (Cons entry entries)
  obtain k val where entry: "entry = (k, val)" by (cases entry)
  show ?case
  proof (cases "k = key")
    case True
    have fresh: "key \<notin> fst ` set entries"
      using Cons.prems(2) by (simp add: entry True)
    then have "(key, v) \<notin> set entries"
      by (metis fst_conv image_eqI)
    with Cons.prems(3) have v: "val = v" by (simp add: entry True)
    have pos: "0 \<le> indexOf hs key"
      using indexOf_present [OF Cons.prems(4)] by blast
    have rest: "patchRow (Some hs) entries (js_set updatedValues (nat (indexOf hs key)) v) = Inr written"
      using Cons.prems(1) pos by (simp add: entry True v Let_def)
    have other: "\<forall>key' \<in> set (map fst entries). indexOf hs key' \<noteq> int (nat (indexOf hs key))"
    proof
      fix key' assume k': "key' \<in> set (map fst entries)"
      show "indexOf hs key' \<noteq> int (nat (indexOf hs key))"
      proof
        assume "indexOf hs key' = int (nat (indexOf hs key))"
        then have "key' = key" by (rule indexOf_same_column [OF Cons.prems(4)])
        with k' fresh show False by simp
      qed
    qed
    from patchRow_frame [OF rest other] show ?thesis
      by (simp add: cell_at_js_set)
  next
    case False
    then have mem: "(key, v) \<in> set entries"
      using Cons.prems(3) by (simp add: entry)
    have d: "distinct (map fst entries)"
      using Cons.prems(2) by simp
    obtain u where rest: "patchRow (Some hs) entries u = Inr written"
      using Cons.prems(1) by (auto simp: entry Let_def split: if_splits)
    show ?thesis
      by (rule Cons.IH [OF rest d mem Cons.prems(4)])
  qed
qed

lemma mapThrowing_Inr:
  "\<forall>x \<in> set xs. f x = Inr (g x) \<Longrightarrow> mapThrowing f xs = Inr (map g xs)"
  by (induction xs) auto

lemma buildRequest_headers:
  "buildRequest this (headers # rest) rowData i =
     (case patchRow (Some headers) (objectEntries rowData)
             (map Some (existingRow (headers # rest) i)) of
        Inl e \<Rightarrow> Inl e
      | Inr updatedValues \<Rightarrow> Inr (RowStart (sheetName this) i, [updatedValues]))"
  by (simp add: buildRequest_def js_nth_def)

lemma existingRow_position:
  "i \<noteq> 1 \<Longrightarrow>
   existingRow (headers # rest) i
     = (if 2 \<le> i \<and> i \<le> int (length rest) + 1 then rest ! nat (i - 2) else [])"
proof (cases "2 \<le> i \<and> i \<le> int (length rest) + 1")
  case True
  then have "nat (i - 1) = Suc (nat (i - 2))" by linarith
  with True have "js_nth (headers # rest) (i - 1) = Some (rest ! nat (i - 2))"
    by (simp add: js_nth_def)
  with True show ?thesis
    by (simp add: existingRow_def)
next
  case False
  moreover assume "i \<noteq> 1"
  ultimately have n: "js_nth (headers # rest) (i - 1) = None"
    by (auto simp: js_nth_def)
  from False have cond: "(2 \<le> i \<and> i \<le> int (length rest) + 1) = False"
    by simp
  show ?thesis
    unfolding existingRow_def n cond by simp
qed

text \<open>
  What updateRow writes on a sheet with a header row, for the positions as the caller
  gave them (a single position or a sequence, none of them 1) and rowData that passes
  the key check. It sends one batched write with one entry for each position, in the
  order given, each addressed at column A of its row. In the row written for a
  position, every column without a header, or whose header is not a key of rowData,
  holds the cell that the sheet has at that position and column (no cell if the sheet
  has no row there, or the row ends before the column); and for every key of rowData
  that is a header, the first column with that header holds the new value.
\<close>

lemma updateRow_sparse_patch:
  "values svc = Some (headers # rest) \<Longrightarrow>
   (rowIndexes = One i \<and> positions = [i]) \<or> rowIndexes = Many positions \<Longrightarrow>
   1 \<notin> set positions \<Longrightarrow>
   (\<forall>k \<in> set (map fst rowData). acceptedByKeyCheck k) \<Longrightarrow>
   distinct (map fst rowData) \<Longrightarrow>
   \<exists>written. length written = length positions
     \<and> updateRow this svc rowIndexes rowData =
         ([ValuesGet (spreadsheetId this) (WholeSheet (sheetName this)),
           ValuesBatchUpdate (spreadsheetId this)
             (map2 (\<lambda>p updatedValues. (RowStart (sheetName this) p, [updatedValues]))
                positions written)],
          Inr (batchResult svc))
     \<and> (\<forall>n < length positions. \<forall>j.
           ((j < length headers \<longrightarrow> headers ! j \<notin> set (map fst rowData)) \<longrightarrow>
              cell_at (written ! n) j
                = (if 2 \<le> positions ! n \<and> positions ! n \<le> int (length rest) + 1
                      \<and> j < length (rest ! nat (positions ! n - 2))
                   then Some (rest ! nat (positions ! n - 2) ! j) else None))
           \<and> (\<forall>(key, v) \<in> set rowData. key \<in> set headers \<longrightarrow>
                cell_at (written ! n) (length (takeWhile (\<lambda>h. h \<noteq> key) headers)) = Some v))"
proof -
  assume vals: "values svc = Some (headers # rest)"
    and shape: "(rowIndexes = One i \<and> positions = [i]) \<or> rowIndexes = Many positions"
    and idx: "1 \<notin> set positions"
    and keys: "\<forall>k \<in> set (map fst rowData). acceptedByKeyCheck k"
    and d: "distinct (map fst rowData)"
  from shape have norm: "normalize rowIndexes = positions"
    by (auto simp: normalize_def)
  define prior where "prior p = map Some (existingRow (headers # rest) p)" for p
  define w where "w p = (case patchRow (Some headers) (objectEntries rowData) (prior p) of
      Inr u \<Rightarrow> u | Inl e \<Rightarrow> [])" for p
  have p: "patchRow (Some headers) (objectEntries rowData) (prior q) = Inr (w q)" for q
    using patchRow_total [of headers "objectEntries rowData" "prior q"] by (auto simp: w_def)
  have b: "buildRequest this (headers # rest) rowData q = Inr (RowStart (sheetName this) q, [w q])" for q
    by (simp add: buildRequest_headers p [unfolded prior_def])
  have m: "mapThrowing (buildRequest this (headers # rest) rowData) positions
      = Inr (map (\<lambda>q. (RowStart (sheetName this) q, [w q])) positions)"
    by (rule mapThrowing_Inr) (simp add: b)
  have z: "map (\<lambda>q. (RowStart (sheetName this) q, [w q])) xs
      = map2 (\<lambda>q updatedValues. (RowStart (sheetName this) q, [updatedValues])) xs (map w xs)" for xs
    by (induction xs) auto
  from keys have "\<forall>k \<in> set (map fst rowData). k \<noteq> [] \<and> \<not> startsWithLowercase k"
    using acceptedByKeyCheck_passes by blast
  then have c: "checkKeys (objectKeys rowData) = None"
    by (simp only: checkKeys_objectKeys_None)
  have result: "updateRow this svc rowIndexes rowData =
         ([ValuesGet (spreadsheetId this) (WholeSheet (sheetName this)),
           ValuesBatchUpdate (spreadsheetId this)
             (map2 (\<lambda>q updatedValues. (RowStart (sheetName this) q, [updatedValues]))
                positions (map w positions))],
          Inr (batchResult svc))"
  proof -
    have m2: "mapThrowing (buildRequest this (headers # rest) rowData) positions
      = Inr (map2 (\<lambda>q updatedValues. (RowStart (sheetName this) q, [updatedValues]))
                positions (map w positions))"
      using m z [of positions] by (rule trans [OF _ arg_cong])
    show ?thesis
      using idx by (simp add: updateRow_def Let_def c vals norm m2 del: map_map)
  qed
  have ks: "set (map fst (objectEntries rowData)) = set (map fst rowData)"
    using set_objectKeys [of rowData] by (simp only: objectKeys_def)
  have frame: "cell_at (w q) j = cell_at (prior q) j"
    if "j < length headers \<longrightarrow> headers ! j \<notin> set (map fst rowData)" for q j
  proof (rule patchRow_frame [OF p])
    show "\<forall>key \<in> set (map fst (objectEntries rowData)). indexOf headers key \<noteq> int j"
    proof
      fix key assume "key \<in> set (map fst (objectEntries rowData))"
      then have k: "key \<in> set (map fst rowData)" by (simp only: ks)
      show "indexOf headers key \<noteq> int j"
      proof
        assume "indexOf headers key = int j"
        then have "j < length headers \<and> headers ! j = key" by (rule indexOf_column)
        with that k show False by simp
      qed
    qed
  qed
  have de: "distinct (map fst (objectEntries rowData))"
    using distinct_objectKeys [OF d] by (simp only: objectKeys_def)
  have over: "cell_at (w q) (length (takeWhile (\<lambda>h. h \<noteq> key) headers)) = Some v"
    if "(key, v) \<in> set rowData" "key \<in> set headers" for q key v
  proof -
    from that(1) have "(key, v) \<in> set (objectEntries rowData)"
      by (simp only: set_objectEntries)
    from patchRow_written [OF p de this that(2)] that(2) show ?thesis
      by (simp add: indexOf_firstColumn)
  qed
  have sheet: "cell_at (prior q) j
      = (if 2 \<le> q \<and> q \<le> int (length rest) + 1 \<and> j < length (rest ! nat (q - 2))
         then Some (rest ! nat (q - 2) ! j) else None)" if "q \<noteq> 1" for q j
    by (simp add: prior_def existingRow_position [OF that] cell_at_def)
  show ?thesis
  proof (intro exI [of _ "map w positions"] conjI allI impI)
    show "length (map w positions) = length positions" by simp
    show "updateRow this svc rowIndexes rowData =
         ([ValuesGet (spreadsheetId this) (WholeSheet (sheetName this)),
           ValuesBatchUpdate (spreadsheetId this)
             (map2 (\<lambda>q updatedValues. (RowStart (sheetName this) q, [updatedValues]))
                positions (map w positions))],
          Inr (batchResult svc))" by (rule result)
  next
    fix n j
    assume n: "n < length positions"
      and f: "j < length headers \<longrightarrow> headers ! j \<notin> set (map fst rowData)"
    from n idx have "positions ! n \<noteq> 1"
      by (metis nth_mem)
    then show "cell_at (map w positions ! n) j
        = (if 2 \<le> positions ! n \<and> positions ! n \<le> int (length rest) + 1
                      \<and> j < length (rest ! nat (positions ! n - 2))
                   then Some (rest ! nat (positions ! n - 2) ! j) else None)"
      using n frame [OF f, of "positions ! n"] sheet [of "positions ! n" j] by simp
  next
    fix n j
    assume n: "n < length positions"
    show "\<forall>(key, v) \<in> set rowData. key \<in> set headers \<longrightarrow>
        cell_at (map w positions ! n) (length (takeWhile (\<lambda>h. h \<noteq> key) headers)) = Some v"
    proof (intro ballI, clarify)
      fix key v assume "(key, v) \<in> set rowData" "key \<in> set headers"
      then show "cell_at (map w positions ! n) (length (takeWhile (\<lambda>h. h \<noteq> key) headers)) = Some v"
        using n over [of key v "positions ! n"] by simp
    qed
  qed
qed

text \<open>
  The example of the specification: \<^verbatim>\<open>updateRow(2, {Name: "X"})\<close> changes the cell under
  \<^verbatim>\<open>Name\<close> in row 2 and writes the other cell of the row back as it was; a position
  beyond the rows of the sheet starts from the empty row.
\<close>

lemma updateRow_example:
  "updateRow \<lparr>spreadsheetId = ''id'', sheetName = ''test''\<rparr>
     \<lparr>values = Some [[''Age'', ''Name''], [''5'', ''A'']], updatedRange = [],
      batchResult = (), sheets = [], replies = []\<rparr> (One 2) [(''Name'', ''X'')]
   = ([ValuesGet ''id'' (WholeSheet ''test''),
       ValuesBatchUpdate ''id'' [(RowStart ''test'' 2, [[Some ''5'', Some ''X'']])]],
      Inr ())
   \<and> updateRow \<lparr>spreadsheetId = ''id'', sheetName = ''test''\<rparr>
     \<lparr>values = Some [[''Age'', ''Name''], [''5'', ''A'']], updatedRange = [],
      batchResult = (), sheets = [], replies = []\<rparr> (Many [4, 2]) [(''Name'', ''X'')]
   = ([ValuesGet ''id'' (WholeSheet ''test''),
       ValuesBatchUpdate ''id''
         [(RowStart ''test'' 4, [[None, Some ''X'']]),
          (RowStart ''test'' 2, [[Some ''5'', Some ''X'']])]],
      Inr ())"
  by code_simp

text \<open>
  C6. The claim fails on the code on a sheet without a value range: position 2 has no
  existing row there, and the claim has the written row start from the empty row, but
  updateRow reads \<^verbatim>\<open>response.data.values[0]\<close> of an absent value range and throws; after
  the read of the value range no write is sent.
\<close>

theorem updateRow_throws_on_empty_sheet:
  "updateRow \<lparr>spreadsheetId = ''id'', sheetName = ''test''\<rparr>
     \<lparr>values = None, updatedRange = [], batchResult = (), sheets = [], replies = []\<rparr>
     (One 2) [(''Name'', ''X'')]
   = ([ValuesGet ''id'' (WholeSheet ''test'')], Inl (ErrorUpdatingRow TypeError))"
  by code_simp

lemma checkKeys_rejected_only:
  "checkKeys keys = checkKeys (filter (\<lambda>k. k = [] \<or> startsWithLowercase k) keys)"
  by (induction keys) (simp_all add: checkKeys_Cons checkKeys_Nil del: filter.simps add: filter.simps)

lemma patchRow_headers_only:
  "patchRow (Some hs) entries updatedValues
     = patchRow (Some hs) (filter (\<lambda>(key, value). key \<in> set hs) entries) updatedValues"
proof (induction entries arbitrary: updatedValues)
  case Nil
  then show ?case by simp
next
  case (Cons entry entries)
  obtain key v where e: "entry = (key, v)" by (cases entry)
  show ?case
  proof (cases "key \<in> set hs")
    case True
    then have "indexOf hs key > - 1"
      using indexOf_present [of key hs] by simp
    with True Cons show ?thesis by (simp add: e Let_def)
  next
    case False
    then have "indexOf hs key = - 1" by (simp add: indexOf_absent)
    with False Cons show ?thesis by (simp add: e)
  qed
qed

lemma checkKeys_objectKeys_accepted_key:
  "acceptedByKeyCheck key \<Longrightarrow>
   checkKeys (objectKeys (pre @ (key, v :: 'v) # post)) = checkKeys (objectKeys (pre @ post))"
proof -
  assume "acceptedByKeyCheck key"
  then have k: "\<not> (key = [] \<or> startsWithLowercase key)"
    using acceptedByKeyCheck_passes by blast
  have f: "filter (\<lambda>k. k = [] \<or> startsWithLowercase k) (objectKeys obj)
      = objectKeys (filter (\<lambda>(k, v). k = [] \<or> startsWithLowercase k) obj)" for obj :: "'v obj"
    by (simp add: objectKeys_def filter_map comp_def case_prod_unfold objectEntries_filter)
  have "filter (\<lambda>(k, v). k = [] \<or> startsWithLowercase k) (pre @ (key, v) # post)
      = filter (\<lambda>(k, v). k = [] \<or> startsWithLowercase k) (pre @ post)"
    using k by simp
  then have "filter (\<lambda>k. k = [] \<or> startsWithLowercase k) (objectKeys (pre @ (key, v) # post))
      = filter (\<lambda>k. k = [] \<or> startsWithLowercase k) (objectKeys (pre @ post))"
    by (simp only: f)
  then show ?thesis
    using checkKeys_rejected_only [of "objectKeys (pre @ (key, v) # post)"]
      checkKeys_rejected_only [of "objectKeys (pre @ post)"]
    by simp
qed

lemma buildRequest_unknown_key:
  "key \<notin> set headers \<Longrightarrow>
   buildRequest this (headers # rest) (pre @ (key, v) # post) i
     = buildRequest this (headers # rest) (pre @ post) i"
proof -
  assume k: "key \<notin> set headers"
  have "filter (\<lambda>(key, value). key \<in> set headers) (objectEntries (pre @ (key, v) # post))
      = filter (\<lambda>(key, value). key \<in> set headers) (objectEntries (pre @ post))"
    using k by (simp add: objectEntries_filter)
  then have "patchRow (Some headers) (objectEntries (pre @ (key, v) # post)) u
      = patchRow (Some headers) (objectEntries (pre @ post)) u" for u
    using patchRow_headers_only [of headers "objectEntries (pre @ (key, v) # post)" u]
      patchRow_headers_only [of headers "objectEntries (pre @ post)" u]
    by simp
  then show ?thesis
    by (simp add: buildRequest_headers)
qed

lemma mapThrowing_cong:
  "(\<And>x. x \<in> set xs \<Longrightarrow> f x = g x) \<Longrightarrow> mapThrowing f xs = mapThrowing g xs"
  by (induction xs) (simp_all split: sum.splits)

lemma mapThrowing_elements:
  "mapThrowing f xs = Inr ys \<Longrightarrow> \<forall>y \<in> set ys. \<exists>x \<in> set xs. f x = Inr y"
proof (induction xs arbitrary: ys)
  case Nil
  then show ?case by simp
next
  case (Cons x xs)
  then show ?case by (auto split: sum.splits)
qed

lemma buildRequest_shape:
  "buildRequest this rows rowData i = Inr (r, vals) \<Longrightarrow>
   r = RowStart (sheetName this) i \<and> length vals = 1"
  by (auto simp: buildRequest_def split: sum.splits)

lemma updateRow_requests_address_data_rows:
  "list_all (addressesDataRows this) (fst (updateRow this svc rowIndexes rowData))"
proof -
  have "list_all (\<lambda>(r, vals). length vals = 1 \<and>
             (case r of RowStart name i \<Rightarrow> name = sheetName this \<and> i \<noteq> 1 | WholeSheet _ \<Rightarrow> False))
          requests"
    if m: "mapThrowing (buildRequest this rows rowData) (normalize rowIndexes) = Inr requests"
      and idx: "1 \<notin> set (normalize rowIndexes)" for rows requests
    unfolding list_all_iff
  proof
    fix e assume e: "e \<in> set requests"
    obtain r vals where rv: "e = (r, vals)" by (cases e)
    from mapThrowing_elements [OF m] e rv obtain i
      where i: "i \<in> set (normalize rowIndexes)"
        and b: "buildRequest this rows rowData i = Inr (r, vals)"
      by blast
    from buildRequest_shape [OF b] i idx rv
    show "case e of (r, vals) \<Rightarrow> length vals = 1 \<and>
             (case r of RowStart name i \<Rightarrow> name = sheetName this \<and> i \<noteq> 1 | WholeSheet _ \<Rightarrow> False)"
      by auto
  qed
  then show ?thesis
    by (auto simp: updateRow_def Let_def addressesDataRows_def split: option.splits sum.splits)
qed

text \<open>
  C10 (as amended). On a sheet with a header row, a key of rowData that passes the key
  check (its first character is an ASCII character other than a lowercase letter) and is
  not among the headers is ignored by updateRow: the call sends the same requests and
  returns the same result (the same error, if any) as the call without that entry, so no
  cell is written for the key and no error is raised on its account. No call of updateRow
  sends a request that touches the header row: besides the read, the only request is the
  batched write, whose entries are single rows that start at rows other than row 1.
\<close>

theorem updateRow_ignores_unknown_key:
  "values svc = Some (headers # rest) \<Longrightarrow> key \<notin> set headers \<Longrightarrow>
   acceptedByKeyCheck key \<Longrightarrow>
   updateRow this svc rowIndexes (pre @ (key, v) # post)
     = updateRow this svc rowIndexes (pre @ post)
   \<and> list_all (addressesDataRows this) (fst (updateRow this svc' rowIndexes' rowData))"
proof
  assume vals: "values svc = Some (headers # rest)" and k: "key \<notin> set headers"
    and fmt: "acceptedByKeyCheck key"
  have c: "checkKeys (objectKeys (pre @ (key, v) # post)) = checkKeys (objectKeys (pre @ post))"
    using fmt by (rule checkKeys_objectKeys_accepted_key)
  have m: "mapThrowing (buildRequest this (headers # rest) (pre @ (key, v) # post)) xs
      = mapThrowing (buildRequest this (headers # rest) (pre @ post)) xs" for xs
    by (rule mapThrowing_cong) (rule buildRequest_unknown_key [OF k])
  show "updateRow this svc rowIndexes (pre @ (key, v) # post)
     = updateRow this svc rowIndexes (pre @ post)"
    unfolding updateRow_def Let_def c vals option.case m ..
next
  show "list_all (addressesDataRows this) (fst (updateRow this svc' rowIndexes' rowData))"
    by (rule updateRow_requests_address_data_rows)
qed

theorem updateRow_ignores_unknown_key_witness:
  "''Zip'' \<notin> set [''Name'', ''Age''] \<and> acceptedByKeyCheck ''Zip''
   \<and> updateRow \<lparr>spreadsheetId = ''id'', sheetName = ''test''\<rparr>
        \<lparr>values = Some [[''Name'', ''Age''], [''A'', ''5'']], updatedRange = [],
         batchResult = (), sheets = [], replies = []\<rparr> (One 2)
        ([(''Name'', ''X'')] @ (''Zip'', ''0'') # [(''Age'', ''6'')])
     = updateRow \<lparr>spreadsheetId = ''id'', sheetName = ''test''\<rparr>
        \<lparr>values = Some [[''Name'', ''Age''], [''A'', ''5'']], updatedRange = [],
         batchResult = (), sheets = [], replies = []\<rparr> (One 2)
        ([(''Name'', ''X'')] @ [(''Age'', ''6'')])
   \<and> updateRow \<lparr>spreadsheetId = ''id'', sheetName = ''test''\<rparr>
        \<lparr>values = Some [[''Name'', ''Age''], [''A'', ''5'']], updatedRange = [],
         batchResult = (), sheets = [], replies = []\<rparr> (One 2)
        ([(''Name'', ''X'')] @ (''Zip'', ''0'') # [(''Age'', ''6'')])
     = ([ValuesGet ''id'' (WholeSheet ''test''),
         ValuesBatchUpdate ''id'' [(RowStart ''test'' 2, [[Some ''X'', Some ''6'']])]],
        Inr ())
   \<and> list_all (addressesDataRows \<lparr>spreadsheetId = ''id'', sheetName = ''test''\<rparr>)
        (fst (updateRow \<lparr>spreadsheetId = ''id'', sheetName = ''test''\<rparr>
           \<lparr>values = Some [[''Name'', ''Age''], [''A'', ''5'']], updatedRange = [],
            batchResult = (), sheets = [], replies = []\<rparr> (Many [3, 2])
           [(''Name'', ''X''), (''Zip'', ''0'')]))"
proof -
  have a: "acceptedByKeyCheck ''Zip''"
    by (simp add: acceptedByKeyCheck_def isLowercaseLetter_def)
  have e: "updateRow \<lparr>spreadsheetId = ''id'', sheetName = ''test''\<rparr>
        \<lparr>values = Some [[''Name'', ''Age''], [''A'', ''5'']], updatedRange = [],
         batchResult = (), sheets = [], replies = []\<rparr> (One 2)
        ([(''Name'', ''X'')] @ (''Zip'', ''0'') # [(''Age'', ''6'')])
     = ([ValuesGet ''id'' (WholeSheet ''test''),
         ValuesBatchUpdate ''id'' [(RowStart ''test'' 2, [[Some ''X'', Some ''6'']])]],
        Inr ())"
    by code_simp
  show ?thesis
    using updateRow_ignores_unknown_key [where key = "''Zip''" and headers = "[''Name'', ''Age'']"
      and rest = "[[''A'', ''5'']]" and pre = "[(''Name'', ''X'')]" and v = "''0''"
      and post = "[(''Age'', ''6'')]" and rowIndexes = "One 2"
      and this = "\<lparr>spreadsheetId = ''id'', sheetName = ''test''\<rparr>"
      and svc = "\<lparr>values = Some [[''Name'', ''Age''], [''A'', ''5'']], updatedRange = [],
         batchResult = (), sheets = [], replies = []\<rparr>"
      and svc' = "\<lparr>values = Some [[''Name'', ''Age''], [''A'', ''5'']], updatedRange = [],
         batchResult = (), sheets = [], replies = []\<rparr>"
      and rowIndexes' = "Many [3, 2]" and rowData = "[(''Name'', ''X''), (''Zip'', ''0'')]"]
      a e
    by simp
qed

text \<open>
  C10 as stated fails: the key \<^verbatim>\<open>zip\<close> is not among the headers, and updateRow does
  not ignore it but raises the Validation error of the key check, before any request.
\<close>

theorem updateRow_rejects_unknown_lowercase_key:
  "''zip'' \<notin> set [''Name'']
   \<and> updateRow \<lparr>spreadsheetId = ''id'', sheetName = ''test''\<rparr>
        \<lparr>values = Some [[''Name''], [''A'']], updatedRange = [], batchResult = (),
         sheets = [], replies = []\<rparr> (One 2) [(''Name'', ''X''), (''zip'', ''0'')]
     = ([], Inl (ErrorUpdatingRow (InvalidKey ''zip'')))"
  by code_simp

section \<open>Claims about the mapping query\<close>

lemma cellMatches_tags:
  "cellMatches cellValue value \<longleftrightarrow>
     (case cellValue of
        Some cell \<Rightarrow>
          toLowerCase value
            \<in> set (map (\<lambda>part. toLowerCase (trim part)) (split_on CHR '','' cell))
      | None \<Rightarrow> False)"
  by (cases cellValue) (auto simp: cellMatches_def list_ex_iff)

lemma entryMatches_spec:
  "(let colIndex = indexOf headers key
    in if colIndex = - 1 then False else cellMatches (js_nth row colIndex) value)
   \<longleftrightarrow>
   key \<in> set headers \<and>
     (case js_nth row (int (length (takeWhile (\<lambda>h. h \<noteq> key) headers))) of
        Some cell \<Rightarrow>
          toLowerCase value
            \<in> set (map (\<lambda>part. toLowerCase (trim part)) (split_on CHR '','' cell))
      | None \<Rightarrow> False)"
proof (cases "key \<in> set headers")
  case True
  then have "indexOf headers key = int (length (takeWhile (\<lambda>h. h \<noteq> key) headers))"
    by (simp add: indexOf_firstColumn)
  with True show ?thesis
    by (simp add: cellMatches_tags)
next
  case False
  then have "indexOf headers key = - 1"
    by (simp add: indexOf_absent)
  with False show ?thesis by simp
qed

lemma matchesQuery_spec: "matchesQuery headers row query \<longleftrightarrow> rowMatchesSpec headers row query"
proof -
  have "(case e of (key, value) \<Rightarrow>
          let colIndex = indexOf headers key
          in if colIndex = - 1 then False else cellMatches (js_nth row colIndex) value)
      \<longleftrightarrow>
        (case e of (key, value) \<Rightarrow>
          key \<in> set headers \<and>
          (case js_nth row (int (length (takeWhile (\<lambda>h. h \<noteq> key) headers))) of
             Some cell \<Rightarrow>
               toLowerCase value
                 \<in> set (map (\<lambda>part. toLowerCase (trim part)) (split_on CHR '','' cell))
           | None \<Rightarrow> False))" for e
    by (cases e) (simp only: prod.case entryMatches_spec)
  note eq = this
  show ?thesis
    unfolding matchesQuery_def rowMatchesSpec_def list_all_iff set_objectEntries
    by (rule ball_cong [OF refl]) (rule eq)
qed

lemma scanRows_accepted:
  "checkKeys (objectKeys query) = None \<Longrightarrow> 0 < index \<Longrightarrow>
   scanRows headers query index rows results =
     Inr (results @
       map (\<lambda>(n, row). \<lparr>rowIndex = int n, data = rowObject headers row 0 []\<rparr>)
         (filter (\<lambda>(n, row). matchesQuery headers row query) (enumerate (Suc index) rows)))"
proof (induction rows arbitrary: index results)
  case Nil
  then show ?case by simp
next
  case (Cons row rows)
  have "int index + 1 = int (Suc index)" by simp
  with Cons show ?case by simp
qed

text \<open>
  C7. The test that findRow applies to a data row under a mapping query is the one the
  specification describes: every query key resolves to a header column and the cell
  there, split on commas with each part trimmed and lowercased, has the lowercased query
  value among its parts (an absent cell never matches). For a query that passes the key
  check, findRow returns exactly the data rows that match, in sheet order, each with its
  1-based position. In particular the value \<^verbatim>\<open>john\<close> matches the cell
  \<^verbatim>\<open>John, Mark\<close> and does not match the cell \<^verbatim>\<open>Johnny\<close>.
\<close>

theorem findRow_mapping_matches:
  "(matchesQuery headers row query \<longleftrightarrow> rowMatchesSpec headers row query)
   \<and> (values svc = Some (headers # rows)
        \<and> (\<forall>k \<in> set (map fst query). k \<noteq> [] \<and> \<not> startsWithLowercase k) \<longrightarrow>
        snd (findRow this svc (Mapping query)) =
          Inr (map (\<lambda>(n, row). \<lparr>rowIndex = int n, data = rowObject headers row 0 []\<rparr>)
                 (filter (\<lambda>(n, row). rowMatchesSpec headers row query) (enumerate 2 rows))))
   \<and> matchesQuery [''Name''] [''John, Mark''] [(''Name'', ''john'')]
   \<and> \<not> matchesQuery [''Name''] [''Johnny''] [(''Name'', ''john'')]"
proof (intro conjI impI)
  show "matchesQuery headers row query \<longleftrightarrow> rowMatchesSpec headers row query"
    by (rule matchesQuery_spec)
next
  assume a: "values svc = Some (headers # rows)
        \<and> (\<forall>k \<in> set (map fst query). k \<noteq> [] \<and> \<not> startsWithLowercase k)"
  then have "\<forall>k \<in> set (map fst query). k \<noteq> [] \<and> \<not> startsWithLowercase k" ..
  then have c: "checkKeys (objectKeys query) = None"
    by (simp only: checkKeys_objectKeys_None)
  have "scanRows headers query 0 (headers # rows) [] = scanRows headers query 1 rows []"
    by simp
  also have "\<dots> = Inr ([] @
       map (\<lambda>(n, row). \<lparr>rowIndex = int n, data = rowObject headers row 0 []\<rparr>)
         (filter (\<lambda>(n, row). matchesQuery headers row query) (enumerate (Suc 1) rows)))"
    by (rule scanRows_accepted [OF c]) simp
  finally show "snd (findRow this svc (Mapping query)) =
          Inr (map (\<lambda>(n, row). \<lparr>rowIndex = int n, data = rowObject headers row 0 []\<rparr>)
                 (filter (\<lambda>(n, row). rowMatchesSpec headers row query) (enumerate 2 rows)))"
    using a by (simp add: findRow_def wrap_def matchesQuery_spec numeral_2_eq_2)
next
  show "matchesQuery [''Name''] [''John, Mark''] [(''Name'', ''john'')]"
    by code_simp
  show "\<not> matchesQuery [''Name''] [''Johnny''] [(''Name'', ''john'')]"
    by code_simp
qed

theorem findRow_mapping_matches_witness:
  "snd (findRow \<lparr>spreadsheetId = ''id'', sheetName = ''test''\<rparr>
        \<lparr>values = Some ([''Name'', ''Age''] # [[''John, Mark'', ''5''], [''Johnny''], [''x,JOHN '']]),
         updatedRange = [], batchResult = (), sheets = [], replies = []\<rparr>
        (Mapping [(''Name'', ''john'')]))
   = Inr [\<lparr>rowIndex = 2, data = [(''Name'', Some ''John, Mark''), (''Age'', Some ''5'')]\<rparr>,
          \<lparr>rowIndex = 4, data = [(''Name'', Some ''x,JOHN ''), (''Age'', None)]\<rparr>]"
proof -
  have k: "\<forall>k \<in> set (map fst [(''Name'', ''john'')]). k \<noteq> [] \<and> \<not> startsWithLowercase k"
    by (simp add: startsWithLowercase_def isLowercaseLetter_def)
  have m1: "rowMatchesSpec [''Name'', ''Age''] [''John, Mark'', ''5''] [(''Name'', ''john'')]"
    by code_simp
  have m2: "\<not> rowMatchesSpec [''Name'', ''Age''] [''Johnny''] [(''Name'', ''john'')]"
    by code_simp
  have m3: "rowMatchesSpec [''Name'', ''Age''] [''x,JOHN ''] [(''Name'', ''john'')]"
    by code_simp
  have e: "enumerate 2 [[''John, Mark'', ''5''], [''Johnny''], [''x,JOHN '']]
      = [(2, [''John, Mark'', ''5'']), (3, [''Johnny'']), (4, [''x,JOHN ''])]"
    by (simp add: enumerate_eq_zip upt_rec)
  have r: "rowObject [''Name'', ''Age''] [''John, Mark'', ''5''] 0 [] = [(''Name'', Some ''John, Mark''), (''Age'', Some ''5'')]"
    "rowObject [''Name'', ''Age''] [''x,JOHN ''] 0 [] = [(''Name'', Some ''x,JOHN ''), (''Age'', None)]"
    by (simp_all add: js_nth_def setProperty_def)
  show ?thesis
    using findRow_mapping_matches [where svc = "\<lparr>values = Some ([''Name'', ''Age''] # [[''John, Mark'', ''5''], [''Johnny''], [''x,JOHN '']]),
         updatedRange = [], batchResult = (), sheets = [], replies = []\<rparr>"
        and headers = "[''Name'', ''Age'']" and rows = "[[''John, Mark'', ''5''], [''Johnny''], [''x,JOHN '']]"
        and query = "[(''Name'', ''john'')]"
        and this = "\<lparr>spreadsheetId = ''id'', sheetName = ''test''\<rparr>"] k
    by (simp add: e m1 m2 m3 r js_nth_def setProperty_def)
qed

section \<open>Claims about deleteRow\<close>

lemma find_map_of:
  "List.find (\<lambda>s. fst s = k) xs = (case map_of xs k of None \<Rightarrow> None | Some v \<Rightarrow> Some (k, v))"
  by (induction xs) auto

lemma getSheetId_found:
  "map_of (sheets svc) (sheetName this) = Some sheet_id \<Longrightarrow> getSheetId this svc = Inr sheet_id"
  by (simp add: getSheetId_def find_map_of)

lemma sortDescending_descending: "sorted_wrt (\<ge>) (sortDescending xs)"
proof -
  have "sorted (map (\<lambda>a. - a) (sort_key (\<lambda>a. - a) xs))"
    by (rule sorted_sort_key)
  then show ?thesis
    by (simp add: sortDescending_def sorted_wrt_map)
qed

lemma sortDescending_mset: "mset (sortDescending xs) = mset xs"
  by (simp add: sortDescending_def)

lemma normalize_given:
  "(rowIndexes = One i \<and> given = [i]) \<or> rowIndexes = Many given \<Longrightarrow> normalize rowIndexes = given"
  by (auto simp add: normalize_def)

text \<open>
  C8. The argument of deleteRow is either one position \<^term>\<open>i\<close>, which stands for the
  one-element sequence of \<^term>\<open>i\<close>, or a sequence of positions, which stands for
  itself; call the sequence it stands for the given positions. When the sheet's
  identifier is found, deleteRow sends the lookup and then one batched structural delete.
  Its requests are those of the given positions arranged in descending order (so that no
  request addresses a row above one deleted before it), one request for each given
  position, each the half-open 0-based range from position - 1 to position; the count
  returned is the number of replies of the service, which is the number of given
  positions when the service replies once for each request.
\<close>

theorem deleteRow_batch:
  "map_of (sheets svc) (sheetName this) = Some sheet_id \<Longrightarrow>
   (rowIndexes = One i \<and> given = [i]) \<or> rowIndexes = Many given \<Longrightarrow>
   \<exists>positions.
     mset positions = mset given \<and> sorted_wrt (\<ge>) positions
     \<and> deleteRow this svc rowIndexes =
         ([SpreadsheetsGet (spreadsheetId this),
           SpreadsheetsBatchUpdate (spreadsheetId this)
             (map (\<lambda>p. \<lparr>sheetId = sheet_id, startIndex = p - 1, endIndex = p\<rparr>) positions)],
          Inr (length (replies svc)))
     \<and> (length (replies svc) = length given \<longrightarrow>
          snd (deleteRow this svc rowIndexes) = Inr (length given))"
proof -
  assume s: "map_of (sheets svc) (sheetName this) = Some sheet_id"
  assume g: "(rowIndexes = One i \<and> given = [i]) \<or> rowIndexes = Many given"
  have n: "normalize rowIndexes = given"
    using g by (rule normalize_given)
  let ?positions = "sortDescending given"
  have r: "deleteRow this svc rowIndexes =
         ([SpreadsheetsGet (spreadsheetId this),
           SpreadsheetsBatchUpdate (spreadsheetId this)
             (map (\<lambda>p. \<lparr>sheetId = sheet_id, startIndex = p - 1, endIndex = p\<rparr>) ?positions)],
          Inr (length (replies svc)))"
    by (simp add: deleteRow_def Let_def getSheetId_found [OF s] deleteRequests_def n)
  show ?thesis
  proof (intro exI [of _ ?positions] conjI impI)
    show "mset ?positions = mset given" by (rule sortDescending_mset)
    show "sorted_wrt (\<ge>) ?positions" by (rule sortDescending_descending)
    show "deleteRow this svc rowIndexes =
         ([SpreadsheetsGet (spreadsheetId this),
           SpreadsheetsBatchUpdate (spreadsheetId this)
             (map (\<lambda>p. \<lparr>sheetId = sheet_id, startIndex = p - 1, endIndex = p\<rparr>) ?positions)],
          Inr (length (replies svc)))" by (rule r)
    show "snd (deleteRow this svc rowIndexes) = Inr (length given)"
      if "length (replies svc) = length given"
      using that by (simp add: r)
  qed
qed

theorem deleteRow_batch_witness:
  "deleteRow \<lparr>spreadsheetId = ''id'', sheetName = ''test''\<rparr>
       \<lparr>values = None, updatedRange = [], batchResult = (),
        sheets = [(''other'', 0), (''test'', 42)], replies = [EmptyReply]\<rparr>
       (One 3) =
     ([SpreadsheetsGet ''id'',
       SpreadsheetsBatchUpdate ''id'' [\<lparr>sheetId = 42, startIndex = 2, endIndex = 3\<rparr>]],
      Inr 1)
   \<and> deleteRow \<lparr>spreadsheetId = ''id'', sheetName = ''test''\<rparr>
       \<lparr>values = None, updatedRange = [], batchResult = (),
        sheets = [(''other'', 0), (''test'', 42)], replies = [EmptyReply, EmptyReply]\<rparr>
       (Many [2, 4]) =
     ([SpreadsheetsGet ''id'',
       SpreadsheetsBatchUpdate ''id''
         [\<lparr>sheetId = 42, startIndex = 3, endIndex = 4\<rparr>,
          \<lparr>sheetId = 42, startIndex = 1, endIndex = 2\<rparr>]],
      Inr 2)"
proof (rule conjI)
  have s: "map_of (sheets \<lparr>values = None, updatedRange = [], batchResult = (),
           sheets = [(''other'', 0), (''test'', 42)], replies = [EmptyReply]\<rparr>)
        (sheetName \<lparr>spreadsheetId = ''id'', sheetName = ''test''\<rparr>) = Some 42"
    by simp
  have g: "((One 3 :: rowIndexes) = One 3 \<and> [3 :: int] = [3]) \<or> One 3 = Many [3]"
    by simp
  from deleteRow_batch [OF s g]
  obtain positions where p: "mset positions = mset [3 :: int]"
      "deleteRow \<lparr>spreadsheetId = ''id'', sheetName = ''test''\<rparr>
          \<lparr>values = None, updatedRange = [], batchResult = (),
           sheets = [(''other'', 0), (''test'', 42)], replies = [EmptyReply]\<rparr>
          (One 3) =
         ([SpreadsheetsGet ''id'',
           SpreadsheetsBatchUpdate ''id''
             (map (\<lambda>p. \<lparr>sheetId = 42, startIndex = p - 1, endIndex = p\<rparr>) positions)],
          Inr 1)"
    by auto
  from p(1) have "positions = [3]"
    by simp
  with p(2) show "deleteRow \<lparr>spreadsheetId = ''id'', sheetName = ''test''\<rparr>
       \<lparr>values = None, updatedRange = [], batchResult = (),
        sheets = [(''other'', 0), (''test'', 42)], replies = [EmptyReply]\<rparr>
       (One 3) =
     ([SpreadsheetsGet ''id'',
       SpreadsheetsBatchUpdate ''id'' [\<lparr>sheetId = 42, startIndex = 2, endIndex = 3\<rparr>]],
      Inr 1)"
    by simp
next
  have s: "map_of (sheets \<lparr>values = None, updatedRange = [], batchResult = (),
           sheets = [(''other'', 0), (''test'', 42)], replies = [EmptyReply, EmptyReply]\<rparr>)
        (sheetName \<lparr>spreadsheetId = ''id'', sheetName = ''test''\<rparr>) = Some 42"
    by simp
  have g: "((Many [2, 4] :: rowIndexes) = One 0 \<and> [2, 4 :: int] = [0]) \<or> Many [2, 4] = Many [2, 4]"
    by simp
  from deleteRow_batch [OF s g]
  obtain positions where p: "mset positions = mset [2, 4 :: int]" "sorted_wrt (\<ge>) positions"
      "deleteRow \<lparr>spreadsheetId = ''id'', sheetName = ''test''\<rparr>
          \<lparr>values = None, updatedRange = [], batchResult = (),
           sheets = [(''other'', 0), (''test'', 42)], replies = [EmptyReply, EmptyReply]\<rparr>
          (Many [2, 4]) =
         ([SpreadsheetsGet ''id'',
           SpreadsheetsBatchUpdate ''id''
             (map (\<lambda>p. \<lparr>sheetId = 42, startIndex = p - 1, endIndex = p\<rparr>) positions)],
          Inr 2)"
    by auto
  from p(1) have l: "length positions = 2"
    using mset_eq_length [of positions "[2, 4]"] by simp
  then obtain a b where ab: "positions = [a, b]"
    by (cases positions; cases "tl positions"; cases "tl (tl positions)") auto
  from p(1) ab have "set [a, b] = {2, 4}"
    using mset_eq_setD [of "[a, b]" "[2, 4]"] by simp
  moreover from p(2) ab have "b \<le> a"
    by simp
  ultimately have "a = 4 \<and> b = 2"
    by (auto simp add: doubleton_eq_iff)
  with p(3) ab show "deleteRow \<lparr>spreadsheetId = ''id'', sheetName = ''test''\<rparr>
       \<lparr>values = None, updatedRange = [], batchResult = (),
        sheets = [(''other'', 0), (''test'', 42)], replies = [EmptyReply, EmptyReply]\<rparr>
       (Many [2, 4]) =
     ([SpreadsheetsGet ''id'',
       SpreadsheetsBatchUpdate ''id''
         [\<lparr>sheetId = 42, startIndex = 3, endIndex = 4\<rparr>,
          \<lparr>sheetId = 42, startIndex = 1, endIndex = 2\<rparr>]],
      Inr 2)"
    by simp
qed

section \<open>Claims about convertGoogleDriveLink\<close>

lemma matchesAt_0:
  "matchesAt (c # cs) 0 \<longleftrightarrow>
     c = CHR ''/'' \<and> take 2 cs = ''d/'' \<and> takeWhile isIdChar (drop 2 cs) \<noteq> []"
proof -
  have t: "take 3 (c # cs) = ''/d/'' \<longleftrightarrow> c = CHR ''/'' \<and> take 2 cs = ''d/''"
    by (simp add: take_Suc_conv_app_nth numeral_3_eq_3 numeral_2_eq_2 take_Cons')
  have d: "drop 3 (c # cs) = drop 2 cs"
    by (simp add: numeral_3_eq_3 numeral_2_eq_2)
  have w: "takeWhile isIdChar xs \<noteq> [] \<longleftrightarrow> (case xs of [] \<Rightarrow> False | x # _ \<Rightarrow> isIdChar x)" for xs
    by (cases xs) simp_all
  show ?thesis
    by (simp only: matchesAt_def drop_0 add_0 t d w conj_assoc)
qed

lemma matchesAt_Suc: "matchesAt (c # cs) (Suc p) \<longleftrightarrow> matchesAt cs p"
  by (simp only: matchesAt_def drop_Suc_Cons add_Suc)

lemma regexMatch_leftmost:
  "matchesAt url p \<Longrightarrow> \<forall>q < p. \<not> matchesAt url q \<Longrightarrow>
   regexMatch url = Some (takeWhile isIdChar (drop (p + 3) url))"
proof (induction p arbitrary: url)
  case 0
  then obtain c cs where url: "url = c # cs"
    by (cases url) (auto simp: matchesAt_def)
  from "0.prems"(1) [unfolded url]
  have "c = CHR ''/'' \<and> take 2 cs = ''d/'' \<and> takeWhile isIdChar (drop 2 cs) \<noteq> []"
    by (rule matchesAt_0 [THEN iffD1])
  moreover have "drop (0 + 3) url = drop 2 cs"
    by (simp add: url numeral_3_eq_3 numeral_2_eq_2)
  ultimately show ?case
    by (simp add: url)
next
  case (Suc p)
  then obtain c cs where url: "url = c # cs"
    by (cases url) (auto simp: matchesAt_def)
  from Suc.prems(2) have "\<not> matchesAt url 0" by blast
  then have no: "\<not> (c = CHR ''/'' \<and> take 2 cs = ''d/'' \<and> takeWhile isIdChar (drop 2 cs) \<noteq> [])"
    unfolding url matchesAt_0 .
  from Suc.prems(1) have m: "matchesAt cs p"
    unfolding url matchesAt_Suc .
  have l: "\<forall>q < p. \<not> matchesAt cs q"
  proof (intro allI impI)
    fix q assume "q < p"
    then have "\<not> matchesAt url (Suc q)" using Suc.prems(2) by simp
    then show "\<not> matchesAt cs q" unfolding url matchesAt_Suc .
  qed
  have "regexMatch url = regexMatch cs"
    unfolding url regexMatch.simps using no by (rule if_not_P)
  also have "\<dots> = Some (takeWhile isIdChar (drop (p + 3) cs))"
    by (rule Suc.IH [OF m l])
  also have "drop (p + 3) cs = drop (Suc p + 3) url"
    by (simp only: url add_Suc drop_Suc_Cons)
  finally show ?case .
qed

lemma regexMatch_none: "\<forall>p. \<not> matchesAt url p \<Longrightarrow> regexMatch url = None"
proof (induction url)
  case Nil
  then show ?case by simp
next
  case (Cons c cs)
  from Cons.prems have "\<not> matchesAt (c # cs) 0" by blast
  then have no: "\<not> (c = CHR ''/'' \<and> take 2 cs = ''d/'' \<and> takeWhile isIdChar (drop 2 cs) \<noteq> [])"
    unfolding matchesAt_0 .
  have "\<forall>p. \<not> matchesAt cs p"
  proof
    fix p
    from Cons.prems have "\<not> matchesAt (c # cs) (Suc p)" by blast
    then show "\<not> matchesAt cs p" unfolding matchesAt_Suc .
  qed
  then have "regexMatch cs = None" by (rule Cons.IH)
  moreover have "regexMatch (c # cs) = regexMatch cs"
    unfolding regexMatch.simps using no by (rule if_not_P)
  ultimately show ?case by (rule trans [rotated])
qed

lemma convertGoogleDriveLink_some_identifier:
  "\<exists>p. matchesAt url p \<Longrightarrow>
    \<exists>ident. ident \<noteq> [] \<and> list_all isIdChar ident
      \<and> convertGoogleDriveLink (JString url)
          = JString (''https://drive.google.com/uc?id='' @ ident)"
proof -
  assume "\<exists>p. matchesAt url p"
  then obtain p where m: "matchesAt url p" and l: "\<forall>q < p. \<not> matchesAt url q"
    using exists_least_iff [of "matchesAt url"] by blast
  let ?ident = "takeWhile isIdChar (drop (p + 3) url)"
  from m have ne: "?ident \<noteq> []"
    by (cases "drop (p + 3) url") (simp_all add: matchesAt_def)
  have "list_all isIdChar ?ident"
    by (auto simp: list_all_iff dest: set_takeWhileD)
  moreover have "convertGoogleDriveLink (JString url)
      = JString (''https://drive.google.com/uc?id='' @ ?ident)"
    using ne by (simp add: convertGoogleDriveLink_def regexMatch_leftmost [OF m l])
  ultimately show ?thesis using ne by blast
qed

lemma matchesAt_bound: "matchesAt url p \<Longrightarrow> p < length url"
  by (cases "p < length url") (simp_all add: matchesAt_def)

text \<open>
  C9. For a string in which the pattern \<^verbatim>\<open>/d/<id>\<close> occurs, convertGoogleDriveLink
  returns \<^verbatim>\<open>https://drive.google.com/uc?id=<id>\<close>, the identifier being the longest run
  of identifier characters after the leftmost occurrence; a string without the pattern
  and a value that is not a string are returned unchanged. So every string that contains
  the pattern is rewritten to the direct link of some non-empty identifier, and the share
  link of the file \<^verbatim>\<open>ABC123\<close> becomes \<^verbatim>\<open>https://drive.google.com/uc?id=ABC123\<close>.
\<close>

theorem convertGoogleDriveLink_rewrites:
  "(matchesAt url p \<and> (\<forall>q < p. \<not> matchesAt url q) \<longrightarrow>
      takeWhile isIdChar (drop (p + 3) url) \<noteq> []
      \<and> convertGoogleDriveLink (JString url)
          = JString (''https://drive.google.com/uc?id='' @ takeWhile isIdChar (drop (p + 3) url)))
   \<and> ((\<forall>q. \<not> matchesAt url' q) \<longrightarrow> convertGoogleDriveLink (JString url') = JString url')
   \<and> ((\<forall>s. x \<noteq> JString s) \<longrightarrow> convertGoogleDriveLink x = x)
   \<and> ((\<exists>q. matchesAt url'' q) \<longrightarrow>
        (\<exists>ident. ident \<noteq> [] \<and> list_all isIdChar ident
           \<and> convertGoogleDriveLink (JString url'')
               = JString (''https://drive.google.com/uc?id='' @ ident)))
   \<and> convertGoogleDriveLink (JString ''https://drive.google.com/file/d/ABC123/view'')
       = JString ''https://drive.google.com/uc?id=ABC123''"
proof (intro conjI impI)
  assume a: "matchesAt url p \<and> (\<forall>q < p. \<not> matchesAt url q)"
  then have m: "matchesAt url p" and l: "\<forall>q < p. \<not> matchesAt url q" by blast+
  from m show ne: "takeWhile isIdChar (drop (p + 3) url) \<noteq> []"
    by (cases "drop (p + 3) url") (simp_all add: matchesAt_def)
  show "convertGoogleDriveLink (JString url)
          = JString (''https://drive.google.com/uc?id='' @ takeWhile isIdChar (drop (p + 3) url))"
    using ne by (simp add: convertGoogleDriveLink_def regexMatch_leftmost [OF m l])
next
  assume "\<forall>q. \<not> matchesAt url' q"
  then show "convertGoogleDriveLink (JString url') = JString url'"
    by (simp add: convertGoogleDriveLink_def regexMatch_none)
next
  assume "\<forall>s. x \<noteq> JString s"
  then show "convertGoogleDriveLink x = x"
    by (cases x) (simp_all add: convertGoogleDriveLink_def)
next
  assume "\<exists>q. matchesAt url'' q"
  then show "\<exists>ident. ident \<noteq> [] \<and> list_all isIdChar ident
           \<and> convertGoogleDriveLink (JString url'')
               = JString (''https://drive.google.com/uc?id='' @ ident)"
    by (rule convertGoogleDriveLink_some_identifier)
next
  show "convertGoogleDriveLink (JString ''https://drive.google.com/file/d/ABC123/view'')
       = JString ''https://drive.google.com/uc?id=ABC123''"
    by code_simp
qed

theorem convertGoogleDriveLink_rewrites_witness:
  "convertGoogleDriveLink (JString ''https://drive.google.com/file/d/ABC123/view?usp=sharing'')
     = JString ''https://drive.google.com/uc?id=ABC123''
   \<and> convertGoogleDriveLink (JString ''https://example.com/d/?x'') = JString ''https://example.com/d/?x''
   \<and> convertGoogleDriveLink JNull = JNull"
proof -
  let ?url = "''https://drive.google.com/file/d/ABC123/view?usp=sharing''"
  let ?other = "''https://example.com/d/?x''"
  have m: "matchesAt ?url 29" by code_simp
  have "\<forall>q \<in> set [0..<29]. \<not> matchesAt ?url q" by code_simp
  then have l: "\<forall>q < 29. \<not> matchesAt ?url q" by simp
  have t: "takeWhile isIdChar (drop (29 + 3) ?url) = ''ABC123''" by code_simp
  have "\<forall>q \<in> set [0..<length ?other]. \<not> matchesAt ?other q" by code_simp
  then have n: "\<forall>q. \<not> matchesAt ?other q"
    using matchesAt_bound [of ?other] by (metis atLeast0LessThan lessThan_iff set_upt)
  have x: "\<forall>s. JNull \<noteq> JString s" by simp
  from convertGoogleDriveLink_rewrites [of ?url 29 ?other JNull ?url] m l n x
  show ?thesis by (simp only: t append.simps) simp
qed

end
